theory Spec2Isabelle
  imports Complex_Main "HOL-Library.AList"
begin

section \<open>The lmq exporter: a shallow embedding of \<^verbatim>\<open>main.go\<close>\<close>

text \<open>
  The program is one Prometheus collector, \<^verbatim>\<open>lmqCollector\<close>. Its two methods
  \<^verbatim>\<open>Collect\<close> and \<^verbatim>\<open>updateStats\<close> are embedded below as functions that take
  the collector's fields and return them updated. Everything the methods obtain from outside
  the program (the clock, the HTTP response, the bytes read from it) is an argument, the
  record \<open>world\<close>; everything they do to the outside (HTTP requests, log lines, metrics sent
  on the channel, a panic) is part of the result, the record \<open>scrape\<close>.

  The mutex \<^verbatim>\<open>c.m\<close> is held for the whole of \<^verbatim>\<open>updateStats\<close>, so calls of
  \<^verbatim>\<open>updateStats\<close> never overlap; the embedding is sequential and has no field for it.
\<close>

subsection \<open>Time\<close>

text \<open>
  \<^verbatim>\<open>time.Time\<close> and \<^verbatim>\<open>time.Duration\<close> are counted in nanoseconds. \<^verbatim>\<open>Before\<close> is
  \<open><\<close> and \<^verbatim>\<open>Add\<close> is \<open>+\<close>. The zero \<^verbatim>\<open>time.Time\<close> (the value of \<^verbatim>\<open>expired\<close> that
  \<^verbatim>\<open>newLMQCollector\<close> leaves) is instant \<open>0\<close>.
\<close>

type_synonym Time = int
type_synonym Duration = int

subsection \<open>\<^verbatim>\<open>float64\<close>\<close>

text \<open>
  A finite \<^verbatim>\<open>float64\<close> is the rational number it stands for (\<open>-0\<close> and \<open>+0\<close> are both
  \<open>0\<close>, as Go's \<^verbatim>\<open>==\<close> has them). \<open>nearest_float64\<close> rounds a rational to the nearest
  number with a 53-bit significand, ties to even, with the subnormal spacing \<open>2^-1074\<close> below
  \<open>2^-1022\<close>: the rounding of the conversion \<^verbatim>\<open>float64(n)\<close> and of
  \<^verbatim>\<open>strconv.ParseFloat\<close>.
\<close>

type_synonym float64 = rat

definition pow2 :: "int \<Rightarrow> rat" where
  "pow2 e = (if 0 \<le> e then 2 ^ nat e else 1 / 2 ^ nat (- e))"

function bitlen :: "int \<Rightarrow> nat" where
  "bitlen n = (if n \<le> 0 then 0 else Suc (bitlen (n div 2)))"
  by pat_completeness auto
termination
  by (relation "measure nat") auto

definition ilog2 :: "rat \<Rightarrow> int" where
  \<comment> \<open>the integer part of the binary logarithm of a positive rational\<close>
  "ilog2 x = (if 1 \<le> x then int (bitlen \<lfloor>x\<rfloor>) - 1
              else - int (bitlen (\<lceil>1 / x\<rceil> - 1)))"

definition round_even :: "rat \<Rightarrow> int" where
  "round_even x =
     (let n = \<lfloor>x\<rfloor>; d = x - of_int n
      in if d < 1 / 2 then n else if 1 / 2 < d then n + 1 else if even n then n else n + 1)"

definition nearest_float64 :: "rat \<Rightarrow> float64" where
  "nearest_float64 x =
     (if x = 0 then 0
      else let q = pow2 (max (ilog2 \<bar>x\<bar>) (- 1022) - 52)
           in of_int (round_even (x / q)) * q)"

definition to_float64 :: "int \<Rightarrow> float64" where
  \<comment> \<open>the conversion \<^verbatim>\<open>float64(n)\<close> of a Go \<^verbatim>\<open>int\<close>\<close>
  "to_float64 n = nearest_float64 (of_int n)"

subsection \<open>Errors\<close>

datatype error =
    UrlError string \<comment> \<open>what \<^verbatim>\<open>http.Get\<close> returns when no response arrives\<close>
  | ReadError string \<comment> \<open>what \<^verbatim>\<open>ioutil.ReadAll\<close> returns when the body breaks off\<close>
  | SyntaxError \<comment> \<open>\<^verbatim>\<open>*json.SyntaxError\<close>\<close>
  | UnmarshalTypeError \<comment> \<open>\<^verbatim>\<open>*json.UnmarshalTypeError\<close>\<close>

subsection \<open>JSON documents\<close>

text \<open>
  A number literal keeps what the decoder needs of its spelling: \<open>IntLit n\<close> is a literal
  with neither fraction nor exponent (\<^verbatim>\<open>strconv.ParseInt\<close> reads it), \<open>FracLit x\<close> one
  with a fraction or an exponent, of value \<open>x\<close> (\<^verbatim>\<open>strconv.ParseInt\<close> refuses it). The
  members of an object are in the order of the text, duplicates kept. Strings are bytes.
\<close>

datatype number = IntLit int | FracLit rat

datatype json =
    JNull
  | JBool bool
  | JNumber number
  | JString string
  | JArray "json list"
  | JObject "(string \<times> json) list"

text \<open>
  The bytes that \<^verbatim>\<open>ioutil.ReadAll\<close> returns: text that the JSON scanner refuses
  (\<open>Malformed\<close>, with the text), or the text of a JSON document (\<open>Document\<close>).
\<close>

datatype bytes = Malformed string | Document json

subsection \<open>The decoded structs (\<^verbatim>\<open>lmqStats\<close>, \<^verbatim>\<open>queueStats\<close>)\<close>

record count =
  Count :: int

text \<open>
  The fields \<^verbatim>\<open>Min\<close> and \<^verbatim>\<open>Max\<close> are \<open>Min_ret\<close> and \<open>Max_ret\<close> here, the field
  \<^verbatim>\<open>size\<close> of the collector is \<open>size_vec\<close> and the method \<^verbatim>\<open>Collect\<close> is
  \<open>Collect_lmq\<close>: HOL has constants of these names.
\<close>

record retention =
  Min_ret :: float64
  Max_ret :: float64
  Mean :: float64 \<comment> \<open>tagged \<^verbatim>\<open>json:"arithmetic_mean"\<close>\<close>
  Median :: float64

record stats =
  Push :: count
  Pull :: count
  Retention :: retention

record queueStats =
  Size :: int
  Memory :: int
  Stats :: stats

text \<open>
  \<^verbatim>\<open>Queues map[string]*queueStats\<close>: the entries of the map with distinct keys, in the
  order in which the decoder added them. \<open>None\<close> is a nil pointer.
\<close>

record lmqStats =
  Queues :: "(string \<times> queueStats option) list"

definition zero_count :: count where
  "zero_count = \<lparr>Count = 0\<rparr>"

definition zero_retention :: retention where
  "zero_retention = \<lparr>Min_ret = 0, Max_ret = 0, Mean = 0, Median = 0\<rparr>"

definition zero_stats :: stats where
  "zero_stats = \<lparr>Push = zero_count, Pull = zero_count, Retention = zero_retention\<rparr>"

definition zero_queueStats :: queueStats where
  "zero_queueStats = \<lparr>Size = 0, Memory = 0, Stats = zero_stats\<rparr>"

definition zero_lmqStats :: lmqStats where
  "zero_lmqStats = \<lparr>Queues = []\<rparr>"

subsection \<open>\<^verbatim>\<open>json.Unmarshal\<close> into \<^verbatim>\<open>lmqStats\<close>\<close>

text \<open>
  \<^verbatim>\<open>encoding/json\<close> decodes by the type of the destination, so this is the decoder for
  the struct declarations of lines 26-47. An object key selects the field whose name (or
  tag) it equals, or else equals after case folding; other keys are skipped without a look
  at their value. \<^verbatim>\<open>null\<close> leaves a number or a struct as it is, and makes a map or a
  pointer nil. A value of the wrong kind, an integer literal outside 64 bits (the size of
  \<^verbatim>\<open>int\<close> on a 64-bit platform) and a float
  literal that overflows are an \<^verbatim>\<open>UnmarshalTypeError\<close>; \<^verbatim>\<open>Unmarshal\<close> then returns an
  error (the first one), and \<^verbatim>\<open>updateStats\<close> does not look at the struct.
\<close>

definition upper :: "char \<Rightarrow> char" where
  "upper c = (let n = of_char c :: nat in if 97 \<le> n \<and> n \<le> 122 then char_of (n - 32) else c)"

fun foldName :: "string \<Rightarrow> string" where
  \<comment> \<open>ASCII letters to upper case; U+017F (long s) is \<open>S\<close> and U+212A (Kelvin sign) is \<open>K\<close>\<close>
  "foldName [] = []"
| "foldName (c # cs) =
     (if c = CHR 0xC5 \<and> take 1 cs = [CHR 0xBF] then CHR ''S'' # foldName (drop 1 cs)
      else if c = CHR 0xE2 \<and> take 2 cs = [CHR 0x84, CHR 0xAA]
        then CHR ''K'' # foldName (drop 2 cs)
      else upper c # foldName cs)"

definition matches :: "string \<Rightarrow> string \<Rightarrow> bool" where
  "matches field key \<longleftrightarrow> key = field \<or> foldName key = foldName field"

definition ParseFloat :: "number \<Rightarrow> float64 option" where
  "ParseFloat l =
     (let r = nearest_float64 (case l of IntLit n \<Rightarrow> of_int n | FracLit x \<Rightarrow> x)
      in if 2 ^ 1024 \<le> \<bar>r\<bar> then None else Some r)"

fun decode_int :: "json \<Rightarrow> int \<Rightarrow> error + int" where
  "decode_int JNull cur = Inr cur"
| "decode_int (JNumber (IntLit n)) cur =
     (if - (2 ^ 63) \<le> n \<and> n < 2 ^ 63 then Inr n else Inl UnmarshalTypeError)"
| "decode_int j cur = Inl UnmarshalTypeError"

fun decode_float64 :: "json \<Rightarrow> float64 \<Rightarrow> error + float64" where
  "decode_float64 JNull cur = Inr cur"
| "decode_float64 (JNumber l) cur =
     (case ParseFloat l of None \<Rightarrow> Inl UnmarshalTypeError | Some x \<Rightarrow> Inr x)"
| "decode_float64 j cur = Inl UnmarshalTypeError"

fun decode_members ::
  "(string \<Rightarrow> json \<Rightarrow> 'a \<Rightarrow> error + 'a) \<Rightarrow> (string \<times> json) list \<Rightarrow> 'a \<Rightarrow> error + 'a" where
  "decode_members field [] cur = Inr cur"
| "decode_members field ((k, v) # ms) cur =
     (case field k v cur of
        Inl e \<Rightarrow> Inl e
      | Inr cur' \<Rightarrow> decode_members field ms cur')"

fun decode_struct ::
  "(string \<Rightarrow> json \<Rightarrow> 'a \<Rightarrow> error + 'a) \<Rightarrow> json \<Rightarrow> 'a \<Rightarrow> error + 'a" where
  "decode_struct field JNull cur = Inr cur"
| "decode_struct field (JObject ms) cur = decode_members field ms cur"
| "decode_struct field j cur = Inl UnmarshalTypeError"

definition count_field :: "string \<Rightarrow> json \<Rightarrow> count \<Rightarrow> error + count" where
  "count_field k v s =
     (if matches ''Count'' k
      then (case decode_int v (Count s) of Inl e \<Rightarrow> Inl e | Inr n \<Rightarrow> Inr (s\<lparr>Count := n\<rparr>))
      else Inr s)"

definition retention_field :: "string \<Rightarrow> json \<Rightarrow> retention \<Rightarrow> error + retention" where
  "retention_field k v s =
     (if matches ''Min'' k
      then (case decode_float64 v (Min_ret s) of
              Inl e \<Rightarrow> Inl e | Inr x \<Rightarrow> Inr (s\<lparr>Min_ret := x\<rparr>))
      else if matches ''Max'' k
      then (case decode_float64 v (Max_ret s) of
              Inl e \<Rightarrow> Inl e | Inr x \<Rightarrow> Inr (s\<lparr>Max_ret := x\<rparr>))
      else if matches ''arithmetic_mean'' k
      then (case decode_float64 v (Mean s) of
              Inl e \<Rightarrow> Inl e | Inr x \<Rightarrow> Inr (s\<lparr>Mean := x\<rparr>))
      else if matches ''Median'' k
      then (case decode_float64 v (Median s) of
              Inl e \<Rightarrow> Inl e | Inr x \<Rightarrow> Inr (s\<lparr>Median := x\<rparr>))
      else Inr s)"

definition stats_field :: "string \<Rightarrow> json \<Rightarrow> stats \<Rightarrow> error + stats" where
  "stats_field k v s =
     (if matches ''Push'' k
      then (case decode_struct count_field v (Push s) of
              Inl e \<Rightarrow> Inl e | Inr x \<Rightarrow> Inr (s\<lparr>Push := x\<rparr>))
      else if matches ''Pull'' k
      then (case decode_struct count_field v (Pull s) of
              Inl e \<Rightarrow> Inl e | Inr x \<Rightarrow> Inr (s\<lparr>Pull := x\<rparr>))
      else if matches ''Retention'' k
      then (case decode_struct retention_field v (Retention s) of
              Inl e \<Rightarrow> Inl e | Inr x \<Rightarrow> Inr (s\<lparr>Retention := x\<rparr>))
      else Inr s)"

definition queueStats_field :: "string \<Rightarrow> json \<Rightarrow> queueStats \<Rightarrow> error + queueStats" where
  "queueStats_field k v s =
     (if matches ''Size'' k
      then (case decode_int v (Size s) of Inl e \<Rightarrow> Inl e | Inr n \<Rightarrow> Inr (s\<lparr>Size := n\<rparr>))
      else if matches ''Memory'' k
      then (case decode_int v (Memory s) of Inl e \<Rightarrow> Inl e | Inr n \<Rightarrow> Inr (s\<lparr>Memory := n\<rparr>))
      else if matches ''Stats'' k
      then (case decode_struct stats_field v (Stats s) of
              Inl e \<Rightarrow> Inl e | Inr x \<Rightarrow> Inr (s\<lparr>Stats := x\<rparr>))
      else Inr s)"

fun decode_pointer :: "json \<Rightarrow> error + queueStats option" where
  \<comment> \<open>a map element \<^verbatim>\<open>*queueStats\<close>: nil for \<^verbatim>\<open>null\<close>, else a new struct\<close>
  "decode_pointer JNull = Inr None"
| "decode_pointer j =
     (case decode_struct queueStats_field j zero_queueStats of
        Inl e \<Rightarrow> Inl e
      | Inr q \<Rightarrow> Inr (Some q))"

fun decode_entries ::
  "(string \<times> json) list \<Rightarrow> (string \<times> queueStats option) list
     \<Rightarrow> error + (string \<times> queueStats option) list" where
  "decode_entries [] m = Inr m"
| "decode_entries ((k, v) # ms) m =
     (case decode_pointer v of
        Inl e \<Rightarrow> Inl e
      | Inr q \<Rightarrow> decode_entries ms (AList.update k q m))"

fun decode_map ::
  "json \<Rightarrow> (string \<times> queueStats option) list \<Rightarrow> error + (string \<times> queueStats option) list" where
  "decode_map JNull cur = Inr []"
| "decode_map (JObject ms) cur = decode_entries ms cur"
| "decode_map j cur = Inl UnmarshalTypeError"

definition lmqStats_field :: "string \<Rightarrow> json \<Rightarrow> lmqStats \<Rightarrow> error + lmqStats" where
  "lmqStats_field k v s =
     (if matches ''Queues'' k
      then (case decode_map v (Queues s) of Inl e \<Rightarrow> Inl e | Inr m \<Rightarrow> Inr (s\<lparr>Queues := m\<rparr>))
      else Inr s)"

fun Unmarshal :: "bytes \<Rightarrow> error + lmqStats" where
  \<comment> \<open>\<^verbatim>\<open>var stats lmqStats; err = json.Unmarshal(b, &stats)\<close>\<close>
  "Unmarshal (Malformed text) = Inl SyntaxError"
| "Unmarshal (Document j) = decode_struct lmqStats_field j zero_lmqStats"

subsection \<open>The collector\<close>

text \<open>
  A \<^verbatim>\<open>GaugeVec\<close> or \<^verbatim>\<open>CounterVec\<close> with the one label \<^verbatim>\<open>queue\<close> is the list of its
  children: the label value and the child's value. \<^verbatim>\<open>WithLabelValues(name)\<close> finds
  the child \<open>name\<close>, and creates it with the value 0 when the vector has none;
  \<^verbatim>\<open>Set(v)\<close> then overwrites its value. \<^verbatim>\<open>Collect\<close> sends every child. The order of
  the children is the order in which they were added (the library sends them in the order
  of a Go map, which is open).
\<close>

type_synonym vec = "(string \<times> float64) list"

definition WithLabelValues :: "string \<Rightarrow> vec \<Rightarrow> vec" where
  "WithLabelValues name vc = (if name \<in> fst ` set vc then vc else vc @ [(name, 0)])"

definition WithLabelValues_Set :: "string \<Rightarrow> float64 \<Rightarrow> vec \<Rightarrow> vec" where
  "WithLabelValues_Set name v vc = AList.update name v (WithLabelValues name vc)"

record lmqCollector =
  uri :: string
  interval :: Duration
  expired :: Time
  size_vec :: vec
  memory :: vec
  push :: vec
  pull :: vec
  retentionMin :: vec
  retentionMax :: vec
  retentionMean :: vec
  retentionMedian :: vec

definition newLMQCollector :: "string \<Rightarrow> Duration \<Rightarrow> lmqCollector" where
  "newLMQCollector u i =
     \<lparr>uri = u, interval = i, expired = 0,
      size_vec = [], memory = [], push = [], pull = [],
      retentionMin = [], retentionMax = [], retentionMean = [], retentionMedian = []\<rparr>"

text \<open>A sample on the channel: the metric's full name, the \<^verbatim>\<open>queue\<close> label, the value.\<close>

type_synonym sample = "string \<times> string \<times> float64"

definition Collect_vec :: "string \<Rightarrow> vec \<Rightarrow> sample list" where
  "Collect_vec fqName vc = map (\<lambda>(q, v). (fqName, q, v)) vc"

definition Collect_vecs :: "lmqCollector \<Rightarrow> sample list" where
  \<comment> \<open>lines 136-143\<close>
  "Collect_vecs c =
     Collect_vec ''lmq_queue_size'' (size_vec c) @
     Collect_vec ''lmq_queue_memory_bytes'' (memory c) @
     Collect_vec ''lmq_queue_push'' (push c) @
     Collect_vec ''lmq_queue_pull'' (pull c) @
     Collect_vec ''lmq_queue_retention_min'' (retentionMin c) @
     Collect_vec ''lmq_queue_retention_max'' (retentionMax c) @
     Collect_vec ''lmq_queue_retention_mean'' (retentionMean c) @
     Collect_vec ''lmq_queue_retention_median'' (retentionMedian c)"

subsection \<open>The world of one call\<close>

record response =
  StatusCode :: int
  Body :: "error + bytes" \<comment> \<open>what \<^verbatim>\<open>ioutil.ReadAll(resp.Body)\<close> returns\<close>

text \<open>
  The response is the one that \<^verbatim>\<open>http.Get\<close> hands over: the client has followed the
  redirects, and for a status that carries no body (1xx, 204, 304) the bytes read are the
  empty text, whatever upstream sent. \<open>delivered\<close> says so of a response.
\<close>

definition no_body :: "int \<Rightarrow> bool" where
  "no_body s \<longleftrightarrow> (100 \<le> s \<and> s < 200) \<or> s = 204 \<or> s = 304"

definition delivered :: "response \<Rightarrow> bool" where
  "delivered r \<longleftrightarrow> (if no_body (StatusCode r) then Body r = Inr (Malformed []) else True)"

text \<open>
  Go leaves the order of a \<^verbatim>\<open>range\<close> over a map open, and it changes from one loop to the
  next. The world gives it: the loop visits the keys of \<open>range_order\<close> first, in that
  order, and then the entries that are left.
\<close>

record world =
  now_check :: Time \<comment> \<open>\<^verbatim>\<open>time.Now()\<close> of line 149\<close>
  httpGet :: "string \<Rightarrow> error + response" \<comment> \<open>\<^verbatim>\<open>http.Get\<close> of line 153\<close>
  now_update :: Time \<comment> \<open>\<^verbatim>\<open>time.Now()\<close> of line 167\<close>
  range_order :: "string list" \<comment> \<open>the order of the \<^verbatim>\<open>range\<close> of line 168\<close>

definition visit :: "string list \<Rightarrow> (string \<times> 'a) list \<Rightarrow> (string \<times> 'a) list" where
  \<comment> \<open>the entries of the map \<open>m\<close>, the keys of \<open>ks\<close> first\<close>
  "visit ks m =
     concat (map (\<lambda>k. case map_of m k of None \<Rightarrow> [] | Some v \<Rightarrow> [(k, v)]) (remdups ks)) @
     filter (\<lambda>(k, v). k \<notin> set ks) m"

subsection \<open>\<^verbatim>\<open>updateStats\<close>\<close>

datatype ret = NoError | Err error | Panic

definition set_queue :: "string \<Rightarrow> queueStats \<Rightarrow> lmqCollector \<Rightarrow> lmqCollector" where
  \<comment> \<open>the body of the loop, lines 169-176\<close>
  "set_queue name q c =
     c\<lparr>size_vec := WithLabelValues_Set name (to_float64 (Size q)) (size_vec c),
       memory := WithLabelValues_Set name (to_float64 (Memory q)) (memory c),
       push := WithLabelValues_Set name (to_float64 (Count (Push (Stats q)))) (push c),
       pull := WithLabelValues_Set name (to_float64 (Count (Pull (Stats q)))) (pull c),
       retentionMin := WithLabelValues_Set name (Min_ret (Retention (Stats q))) (retentionMin c),
       retentionMax := WithLabelValues_Set name (Max_ret (Retention (Stats q))) (retentionMax c),
       retentionMean := WithLabelValues_Set name (Mean (Retention (Stats q))) (retentionMean c),
       retentionMedian :=
         WithLabelValues_Set name (Median (Retention (Stats q))) (retentionMedian c)\<rparr>"

fun range_Queues :: "(string \<times> queueStats option) list \<Rightarrow> lmqCollector \<Rightarrow> ret \<times> lmqCollector" where
  \<comment> \<open>the loop of line 168 over the entries in the order of the visit. On a nil \<^verbatim>\<open>q\<close>,
    line 169 has called \<^verbatim>\<open>c.size.WithLabelValues(name)\<close> when \<^verbatim>\<open>q.Size\<close> panics\<close>
  "range_Queues [] c = (NoError, c)"
| "range_Queues ((name, None) # rest) c =
     (Panic, c\<lparr>size_vec := WithLabelValues name (size_vec c)\<rparr>)"
| "range_Queues ((name, Some q) # rest) c = range_Queues rest (set_queue name q c)"

text \<open>
  The result: what the method returns (or that it panicked), the collector after the call,
  and the URIs requested from upstream during it.
\<close>

definition updateStats :: "world \<Rightarrow> lmqCollector \<Rightarrow> ret \<times> lmqCollector \<times> string list" where
  "updateStats w c =
     (if now_check w < expired c then (NoError, c, [])
      else case httpGet w (uri c) of
        Inl err \<Rightarrow> (Err err, c, [uri c])
      | Inr resp \<Rightarrow>
          (case Body resp of
             Inl err \<Rightarrow> (Err err, c, [uri c])
           | Inr b \<Rightarrow>
               (case Unmarshal b of
                  Inl err \<Rightarrow> (Err err, c, [uri c])
                | Inr stats \<Rightarrow>
                    (case range_Queues (visit (range_order w) (Queues stats))
                            (c\<lparr>expired := now_update w + interval c\<rparr>) of
                       (r, c') \<Rightarrow> (r, c', [uri c])))))"

subsection \<open>\<^verbatim>\<open>Collect\<close>\<close>

datatype logline = Failed_to_update_metrics error

record scrape =
  state :: lmqCollector \<comment> \<open>the collector after the call\<close>
  requests :: "string list" \<comment> \<open>the URIs fetched from upstream\<close>
  logged :: "logline list" \<comment> \<open>the lines written by \<^verbatim>\<open>log.Printf\<close>\<close>
  emitted :: "sample list" \<comment> \<open>the metrics sent on \<^verbatim>\<open>ch\<close>\<close>
  panicked :: bool \<comment> \<open>the call left by a panic instead of returning\<close>

definition Collect_lmq :: "world \<Rightarrow> lmqCollector \<Rightarrow> scrape" where
  "Collect_lmq w c =
     (case updateStats w c of
        (Err err, c', reqs) \<Rightarrow>
          \<lparr>state = c', requests = reqs, logged = [Failed_to_update_metrics err],
           emitted = [], panicked = False\<rparr>
      | (NoError, c', reqs) \<Rightarrow>
          \<lparr>state = c', requests = reqs, logged = [], emitted = Collect_vecs c',
           panicked = False\<rparr>
      | (Panic, c', reqs) \<Rightarrow>
          \<lparr>state = c', requests = reqs, logged = [], emitted = [], panicked = True\<rparr>)"

subsection \<open>Sequences of scrapes\<close>

fun run :: "lmqCollector \<Rightarrow> world list \<Rightarrow> scrape list" where
  "run c [] = []"
| "run c (w # ws) = Collect_lmq w c # run (state (Collect_lmq w c)) ws"

fun after :: "lmqCollector \<Rightarrow> world list \<Rightarrow> lmqCollector" where
  "after c [] = c"
| "after c (w # ws) = after (state (Collect_lmq w c)) ws"

subsection \<open>Observations on a call\<close>

text \<open>
  The snapshot that a call of \<^verbatim>\<open>updateStats\<close> fetches and decodes, if it does: the cache
  has expired, the response arrives, its body is read, and \<^verbatim>\<open>json.Unmarshal\<close> returns
  no error.
\<close>

definition fetched :: "world \<Rightarrow> lmqCollector \<Rightarrow> lmqStats option" where
  "fetched w c =
     (if now_check w < expired c then None
      else case httpGet w (uri c) of
        Inl err \<Rightarrow> None
      | Inr resp \<Rightarrow>
          (case Body resp of
             Inl err \<Rightarrow> None
           | Inr b \<Rightarrow> (case Unmarshal b of Inl err \<Rightarrow> None | Inr st \<Rightarrow> Some st)))"

fun snapshots :: "lmqCollector \<Rightarrow> world list \<Rightarrow> lmqStats list" where
  \<comment> \<open>the snapshots fetched and decoded during a sequence of scrapes, oldest first\<close>
  "snapshots c [] = []"
| "snapshots c (w # ws) =
     (case fetched w c of None \<Rightarrow> [] | Some st \<Rightarrow> [st]) @ snapshots (state (Collect_lmq w c)) ws"

definition names :: "lmqStats \<Rightarrow> string set" where
  "names st = fst ` set (Queues st)"

definition labels :: "sample list \<Rightarrow> string set" where
  \<comment> \<open>the values of the label \<^verbatim>\<open>queue\<close> among the samples\<close>
  "labels ss = (\<lambda>(fqName, q, v). q) ` set ss"

definition refresh_fails :: "world \<Rightarrow> lmqCollector \<Rightarrow> bool" where
  \<comment> \<open>the cache has expired and the fetch, the read or the parse returns an error\<close>
  "refresh_fails w c \<longleftrightarrow>
     expired c \<le> now_check w \<and>
     (case httpGet w (uri c) of
        Inl err \<Rightarrow> True
      | Inr resp \<Rightarrow>
          (case Body resp of
             Inl err \<Rightarrow> True
           | Inr b \<Rightarrow> (case Unmarshal b of Inl err \<Rightarrow> True | Inr st \<Rightarrow> False)))"

definition vecs :: "lmqCollector \<Rightarrow> vec list" where
  \<comment> \<open>the eight metric vectors, in the order of \<^verbatim>\<open>Collect\<close>\<close>
  "vecs c =
     [size_vec c, memory c, push c, pull c,
      retentionMin c, retentionMax c, retentionMean c, retentionMedian c]"

definition fqNames :: "string list" where
  \<comment> \<open>their full names: namespace \<^verbatim>\<open>lmq\<close>, subsystem \<^verbatim>\<open>queue\<close>, name\<close>
  "fqNames =
     [''lmq_queue_size'', ''lmq_queue_memory_bytes'', ''lmq_queue_push'', ''lmq_queue_pull'',
      ''lmq_queue_retention_min'', ''lmq_queue_retention_max'',
      ''lmq_queue_retention_mean'', ''lmq_queue_retention_median'']"

definition queue_series :: "lmqCollector \<Rightarrow> string \<Rightarrow> float64 option list" where
  \<comment> \<open>the eight values held for the queue \<open>q\<close> (\<open>None\<close>: the vector has no such child)\<close>
  "queue_series c q = map (\<lambda>vc. map_of vc q) (vecs c)"

definition relabel :: "queueStats \<Rightarrow> float64 list" where
  \<comment> \<open>the eight values that lines 169-176 set for one queue\<close>
  "relabel q =
     [to_float64 (Size q), to_float64 (Memory q),
      to_float64 (Count (Push (Stats q))), to_float64 (Count (Pull (Stats q))),
      Min_ret (Retention (Stats q)), Max_ret (Retention (Stats q)),
      Mean (Retention (Stats q)), Median (Retention (Stats q))]"

definition queue_samples :: "string \<Rightarrow> float64 list \<Rightarrow> sample list" where
  \<comment> \<open>the samples of the queue \<open>q\<close> with the values \<open>vs\<close>, one per metric\<close>
  "queue_samples q vs = map (\<lambda>(fqName, v). (fqName, q, v)) (zip fqNames vs)"

definition of_queue :: "string \<Rightarrow> sample list \<Rightarrow> sample list" where
  \<comment> \<open>the samples labelled \<^verbatim>\<open>queue=q\<close>\<close>
  "of_queue q ss = filter (\<lambda>(fqName, q', v). q' = q) ss"

definition well_formed :: "lmqCollector \<Rightarrow> bool" where
  \<comment> \<open>no vector holds two children with the same label\<close>
  "well_formed c \<longleftrightarrow> list_all (\<lambda>vc. distinct (map fst vc)) (vecs c)"

subsection \<open>Example worlds and documents\<close>

definition serving :: "Time \<Rightarrow> int \<Rightarrow> bytes \<Rightarrow> world" where
  \<comment> \<open>at time \<open>t\<close> the client hands over status \<open>s\<close> and body \<open>b\<close>; the loop visits the
    entries in the order of the decoder\<close>
  "serving t s b =
     \<lparr>now_check = t, httpGet = (\<lambda>u. Inr \<lparr>StatusCode = s, Body = Inr b\<rparr>), now_update = t,
      range_order = []\<rparr>"

definition serving_in_order :: "Time \<Rightarrow> string list \<Rightarrow> bytes \<Rightarrow> world" where
  \<comment> \<open>as \<open>serving t 200 b\<close>, but the loop visits the keys \<open>ks\<close> first\<close>
  "serving_in_order t ks b =
     \<lparr>now_check = t, httpGet = (\<lambda>u. Inr \<lparr>StatusCode = 200, Body = Inr b\<rparr>), now_update = t,
      range_order = ks\<rparr>"

definition unreachable :: "Time \<Rightarrow> world" where
  \<comment> \<open>at time \<open>t\<close> upstream does not answer\<close>
  "unreachable t =
     \<lparr>now_check = t, httpGet = (\<lambda>u. Inl (UrlError ''connection refused'')), now_update = t,
      range_order = []\<rparr>"

definition queue_doc :: "int \<Rightarrow> int \<Rightarrow> int \<Rightarrow> int \<Rightarrow> rat \<Rightarrow> rat \<Rightarrow> rat \<Rightarrow> rat \<Rightarrow> json" where
  \<comment> \<open>one queue's entry, in the shape upstream sends\<close>
  "queue_doc sz mem psh pl mn mx avg med =
     JObject
       [(''Size'', JNumber (IntLit sz)),
        (''Memory'', JNumber (IntLit mem)),
        (''Stats'', JObject
           [(''Push'', JObject [(''Count'', JNumber (IntLit psh))]),
            (''Pull'', JObject [(''Count'', JNumber (IntLit pl))]),
            (''Retention'', JObject
               [(''Min'', JNumber (FracLit mn)),
                (''Max'', JNumber (FracLit mx)),
                (''arithmetic_mean'', JNumber (FracLit avg)),
                (''Median'', JNumber (FracLit med))])])]"

definition q1_doc :: json where
  "q1_doc = queue_doc 5 1024 10 3 0.1 9.9 2.2 1.5"

definition q1_earlier_doc :: json where
  "q1_earlier_doc = queue_doc 4 512 8 2 0.1 9.9 2.2 1.5"

definition q2_doc :: json where
  "q2_doc = queue_doc 7 2048 20 6 0.5 3.5 1.5 1.25"

definition snapshot_q1 :: json where
  \<comment> \<open>the snapshot of the specification's relabeling example\<close>
  "snapshot_q1 = JObject [(''Queues'', JObject [(''q1'', q1_doc)])]"

definition snapshot_q1_q2 :: json where
  "snapshot_q1_q2 =
     JObject [(''Queues'', JObject [(''q1'', q1_earlier_doc), (''q2'', q2_doc)])]"

definition q1_stats :: queueStats where
  "q1_stats =
     \<lparr>Size = 5, Memory = 1024,
      Stats = \<lparr>Push = \<lparr>Count = 10\<rparr>, Pull = \<lparr>Count = 3\<rparr>,
               Retention = \<lparr>Min_ret = nearest_float64 0.1, Max_ret = nearest_float64 9.9,
                            Mean = nearest_float64 2.2, Median = 1.5\<rparr>\<rparr>\<rparr>"

definition q1_earlier_stats :: queueStats where
  "q1_earlier_stats =
     \<lparr>Size = 4, Memory = 512,
      Stats = \<lparr>Push = \<lparr>Count = 8\<rparr>, Pull = \<lparr>Count = 2\<rparr>,
               Retention = \<lparr>Min_ret = nearest_float64 0.1, Max_ret = nearest_float64 9.9,
                            Mean = nearest_float64 2.2, Median = 1.5\<rparr>\<rparr>\<rparr>"

definition q2_stats :: queueStats where
  "q2_stats =
     \<lparr>Size = 7, Memory = 2048,
      Stats = \<lparr>Push = \<lparr>Count = 20\<rparr>, Pull = \<lparr>Count = 6\<rparr>,
               Retention = \<lparr>Min_ret = 0.5, Max_ret = 3.5, Mean = 1.5, Median = 1.25\<rparr>\<rparr>\<rparr>"

definition collector0 :: lmqCollector where
  \<comment> \<open>the collector of \<^verbatim>\<open>main\<close> with the default flags\<close>
  "collector0 = newLMQCollector ''http://localhost:9980/stats'' 5000000000"

definition collector1 :: lmqCollector where
  \<comment> \<open>\<open>collector0\<close> after a scrape at time 1000 that fetched \<open>snapshot_q1_q2\<close>\<close>
  "collector1 =
     \<lparr>uri = ''http://localhost:9980/stats'', interval = 5000000000, expired = 5000001000,
      size_vec = [(''q1'', 4), (''q2'', 7)],
      memory = [(''q1'', 512), (''q2'', 2048)],
      push = [(''q1'', 8), (''q2'', 20)],
      pull = [(''q1'', 2), (''q2'', 6)],
      retentionMin = [(''q1'', nearest_float64 0.1), (''q2'', 0.5)],
      retentionMax = [(''q1'', nearest_float64 9.9), (''q2'', 3.5)],
      retentionMean = [(''q1'', nearest_float64 2.2), (''q2'', 1.5)],
      retentionMedian = [(''q1'', 1.5), (''q2'', 1.25)]\<rparr>"

definition collector2 :: lmqCollector where
  \<comment> \<open>\<open>collector1\<close> after a scrape at time 6000000000 that fetched \<open>snapshot_q1\<close>\<close>
  "collector2 =
     \<lparr>uri = ''http://localhost:9980/stats'', interval = 5000000000, expired = 11000000000,
      size_vec = [(''q1'', 5), (''q2'', 7)],
      memory = [(''q1'', 1024), (''q2'', 2048)],
      push = [(''q1'', 10), (''q2'', 20)],
      pull = [(''q1'', 3), (''q2'', 6)],
      retentionMin = [(''q1'', nearest_float64 0.1), (''q2'', 0.5)],
      retentionMax = [(''q1'', nearest_float64 9.9), (''q2'', 3.5)],
      retentionMean = [(''q1'', nearest_float64 2.2), (''q2'', 1.5)],
      retentionMedian = [(''q1'', 1.5), (''q2'', 1.25)]\<rparr>"

section \<open>Properties\<close>

subsection \<open>Children of a vector\<close>

lemma WithLabelValues_Set_update: "WithLabelValues_Set name v vc = AList.update name v vc"
proof -
  have "AList.update name v (vc @ [(name, x)]) = AList.update name v vc"
    if "name \<notin> fst ` set vc" for x
    using that by (induction vc) auto
  then show ?thesis
    by (simp add: WithLabelValues_Set_def WithLabelValues_def)
qed

lemma map_of_WithLabelValues:
  "q \<noteq> name \<Longrightarrow> map_of (WithLabelValues name vc) q = map_of vc q"
  by (auto simp add: WithLabelValues_def map_add_def split: option.splits)

lemma distinct_WithLabelValues:
  "distinct (map fst vc) \<Longrightarrow> distinct (map fst (WithLabelValues name vc))"
  by (simp add: WithLabelValues_def)

subsection \<open>The order of the loop\<close>

lemma visit_Nil [simp]: "visit [] m = m"
  by (simp add: visit_def)

lemma visit_empty [simp]: "visit ks [] = []"
  by (simp add: visit_def)

lemma visit_single [simp]: "visit ks [(k, v)] = [(k, v)]"
proof -
  have "concat (map (\<lambda>k'. case (if k' = k then Some v else None) of
                           None \<Rightarrow> [] | Some v' \<Rightarrow> [(k', v')]) xs) =
      (if k \<in> set xs then [(k, v)] else [])" if "distinct xs" for xs :: "string list"
    using that by (induction xs) auto
  from this [of "remdups ks"] show ?thesis
    by (auto simp add: visit_def)
qed

lemma visit_first_keys:
  "map fst (concat (map (\<lambda>k. case map_of m k of None \<Rightarrow> [] | Some v \<Rightarrow> [(k, v)]) xs)) =
   filter (\<lambda>k. map_of m k \<noteq> None) xs"
  by (induction xs) (auto split: option.splits)

lemma visit_first_set:
  "set (concat (map (\<lambda>k. case map_of m k of None \<Rightarrow> [] | Some v \<Rightarrow> [(k, v)]) xs)) =
   {(k, v). k \<in> set xs \<and> map_of m k = Some v}"
  by (induction xs) (auto split: option.splits)

lemma set_visit_eq:
  "set (visit ks m) =
     {(k, v). k \<in> set ks \<and> map_of m k = Some v} \<union> {(k, v). (k, v) \<in> set m \<and> k \<notin> set ks}"
  by (auto simp add: visit_def visit_first_set)

lemma keys_visit: "fst ` set (visit ks m) = fst ` set m"
proof
  show "fst ` set (visit ks m) \<subseteq> fst ` set m"
  proof
    fix k
    assume "k \<in> fst ` set (visit ks m)"
    then obtain v where "(k, v) \<in> set (visit ks m)"
      by auto
    then have "(k, v) \<in> set m"
      unfolding set_visit_eq by (auto dest: map_of_SomeD)
    then show "k \<in> fst ` set m"
      by (rule rev_image_eqI) simp
  qed
next
  show "fst ` set m \<subseteq> fst ` set (visit ks m)"
  proof
    fix k
    assume "k \<in> fst ` set m"
    then obtain v where v: "map_of m k = Some v" and mem: "(k, v) \<in> set m"
      by (metis map_of_eq_None_iff map_of_SomeD not_Some_eq)
    have "(k, v) \<in> set (visit ks m)"
      unfolding set_visit_eq using v mem by (cases "k \<in> set ks") simp_all
    then show "k \<in> fst ` set (visit ks m)"
      by (rule rev_image_eqI) simp
  qed
qed

lemma distinct_visit:
  assumes "distinct (map fst m)"
  shows "distinct (map fst (visit ks m))"
proof -
  have "distinct (map fst (filter (\<lambda>(k, v). k \<notin> set ks) m))"
    using assms by (rule distinct_map_filter)
  moreover have "fst ` set (filter (\<lambda>(k, v). k \<notin> set ks) m) \<inter> set ks = {}"
    by auto
  ultimately show ?thesis
    by (auto simp add: visit_def visit_first_keys)
qed

lemma set_visit:
  assumes "distinct (map fst m)"
  shows "set (visit ks m) = set m"
proof -
  have "map_of m k = Some v \<longleftrightarrow> (k, v) \<in> set m" for k v
    using assms by simp
  then show ?thesis
    unfolding set_visit_eq by auto
qed

subsection \<open>The loop over the queues\<close>

lemma range_Queues_not_Err: "range_Queues qs c \<noteq> (Err e, c')"
  by (induction qs c rule: range_Queues.induct) simp_all

lemma set_queue_fields [simp]:
  "uri (set_queue name st c) = uri c"
  "interval (set_queue name st c) = interval c"
  "expired (set_queue name st c) = expired c"
  by (simp_all add: set_queue_def)

lemma range_Queues_fields:
  "uri (snd (range_Queues qs c)) = uri c \<and>
   interval (snd (range_Queues qs c)) = interval c \<and>
   expired (snd (range_Queues qs c)) = expired c"
  by (induction qs c rule: range_Queues.induct) simp_all

lemma range_Queues_NoError:
  "list_all (\<lambda>(name, q). q \<noteq> None) qs \<Longrightarrow> fst (range_Queues qs c) = NoError"
  by (induction qs c rule: range_Queues.induct) simp_all

lemma range_Queues_Panic:
  "\<not> list_all (\<lambda>(name, q). q \<noteq> None) qs \<Longrightarrow> fst (range_Queues qs c) = Panic"
  by (induction qs c rule: range_Queues.induct) simp_all

lemma queue_series_set_queue:
  "queue_series (set_queue name st c) q =
     (if q = name then map Some (relabel st) else queue_series c q)"
  by (simp add: queue_series_def vecs_def set_queue_def WithLabelValues_Set_update relabel_def
      update_conv')

lemma queue_series_child:
  "q \<noteq> name \<Longrightarrow>
   queue_series (c\<lparr>size_vec := WithLabelValues name (size_vec c)\<rparr>) q = queue_series c q"
  by (simp add: queue_series_def vecs_def map_of_WithLabelValues)

lemma range_Queues_frame:
  "q \<notin> fst ` set qs \<Longrightarrow> queue_series (snd (range_Queues qs c)) q = queue_series c q"
  by (induction qs c rule: range_Queues.induct)
    (auto simp add: queue_series_set_queue queue_series_child)

lemma range_Queues_series:
  "distinct (map fst qs) \<Longrightarrow> (q, Some st) \<in> set qs \<Longrightarrow>
   fst (range_Queues qs c) = NoError \<Longrightarrow>
   queue_series (snd (range_Queues qs c)) q = map Some (relabel st)"
proof (induction qs c rule: range_Queues.induct)
  case (1 c)
  then show ?case by simp
next
  case (2 name rest c)
  then show ?case by simp
next
  case (3 name s rest c)
  show ?case
  proof (cases "q = name")
    case True
    with 3 have "st = s" and "q \<notin> fst ` set rest"
      by (auto simp add: rev_image_eqI)
    then show ?thesis
      using True by (simp add: range_Queues_frame queue_series_set_queue)
  next
    case False
    with 3 show ?thesis by simp
  qed
qed

lemma queue_series_expired [simp]:
  "queue_series (c\<lparr>expired := t\<rparr>) q = queue_series c q"
  by (simp add: queue_series_def vecs_def)

lemma Collect_vecs_expired [simp]: "Collect_vecs (c\<lparr>expired := t\<rparr>) = Collect_vecs c"
  by (simp add: Collect_vecs_def)

subsection \<open>One call of \<^verbatim>\<open>updateStats\<close> and of \<^verbatim>\<open>Collect\<close>\<close>

lemma updateStats_fresh:
  "now_check w < expired c \<Longrightarrow> updateStats w c = (NoError, c, [])"
  by (simp add: updateStats_def)

lemma updateStats_fetched:
  "fetched w c = Some st \<Longrightarrow>
   updateStats w c =
     (fst (range_Queues (visit (range_order w) (Queues st))
             (c\<lparr>expired := now_update w + interval c\<rparr>)),
      snd (range_Queues (visit (range_order w) (Queues st))
             (c\<lparr>expired := now_update w + interval c\<rparr>)),
      [uri c])"
  by (auto simp add: fetched_def updateStats_def split: if_splits sum.splits prod.splits)

lemma updateStats_not_fetched:
  "fetched w c = None \<Longrightarrow>
   snd (updateStats w c) = (c, if now_check w < expired c then [] else [uri c])"
  by (auto simp add: fetched_def updateStats_def split: if_splits sum.splits prod.splits)

lemma updateStats_Err_state:
  "fst (updateStats w c) = Err e \<Longrightarrow> updateStats w c = (Err e, c, [uri c])"
  by (auto simp add: updateStats_def range_Queues_not_Err
      split: sum.splits prod.splits if_splits)

lemma updateStats_failure:
  assumes "httpGet w (uri c) = Inl e \<or>
     (\<exists>r. httpGet w (uri c) = Inr r \<and>
        (Body r = Inl e \<or> (\<exists>b. Body r = Inr b \<and> Unmarshal b = Inl e)))"
  shows "updateStats w c =
     (if now_check w < expired c then (NoError, c, []) else (Err e, c, [uri c]))"
  using assms by (auto simp add: updateStats_def)

lemma state_Collect_lmq: "state (Collect_lmq w c) = fst (snd (updateStats w c))"
  by (cases "updateStats w c") (auto simp add: Collect_lmq_def split: ret.splits)

lemma panicked_Collect_lmq: "panicked (Collect_lmq w c) \<longleftrightarrow> fst (updateStats w c) = Panic"
  by (cases "updateStats w c") (auto simp add: Collect_lmq_def split: ret.splits)

lemma emitted_Collect_lmq:
  "emitted (Collect_lmq w c) =
     (if fst (updateStats w c) = NoError then Collect_vecs (state (Collect_lmq w c)) else [])"
  by (cases "updateStats w c") (auto simp add: Collect_lmq_def split: ret.splits)

lemma Collect_lmq_fresh:
  "now_check w < expired c \<Longrightarrow>
   Collect_lmq w c =
     \<lparr>state = c, requests = [], logged = [], emitted = Collect_vecs c, panicked = False\<rparr>"
  by (simp add: Collect_lmq_def updateStats_fresh)

lemma Collect_lmq_Err:
  "fst (updateStats w c) = Err e \<Longrightarrow>
   Collect_lmq w c =
     \<lparr>state = c, requests = [uri c], logged = [Failed_to_update_metrics e], emitted = [],
      panicked = False\<rparr>"
  by (simp add: Collect_lmq_def updateStats_Err_state)

lemma requests_le_1: "length (requests (Collect_lmq w c)) \<le> 1"
  by (simp add: Collect_lmq_def updateStats_def split: sum.splits prod.splits ret.splits)

lemma expired_after_fetch:
  "fetched w c = Some st \<Longrightarrow>
   expired (state (Collect_lmq w c)) = now_update w + interval c"
  by (simp add: state_Collect_lmq updateStats_fetched range_Queues_fields)

text \<open>
  The panic is a branch that a scrape can take: a snapshot with a \<^verbatim>\<open>null\<close> queue makes
  the loop dereference a nil pointer, after \<^verbatim>\<open>expired\<close> has been set and the child of
  \<^verbatim>\<open>size\<close> has been created.
\<close>

lemma null_queue_panics:
  "Collect_lmq
     (serving 1000 200 (Document (JObject [(''Queues'', JObject [(''q1'', JNull)])])))
     collector0 =
   \<lparr>state = collector0\<lparr>expired := 5000001000, size_vec := [(''q1'', 0)]\<rparr>,
    requests = [''http://localhost:9980/stats''], logged = [], emitted = [],
    panicked = True\<rparr>"
  by (simp add: Collect_lmq_def updateStats_def serving_def collector0_def
      newLMQCollector_def lmqStats_field_def matches_def zero_lmqStats_def
      WithLabelValues_def)

text \<open>
  What a panicking scrape leaves behind depends on the order of the loop. With the queues
  \<^verbatim>\<open>q1\<close> (an empty object) and \<^verbatim>\<open>q2\<close> (\<^verbatim>\<open>null\<close>): when \<^verbatim>\<open>q2\<close> comes first only
  its child of \<^verbatim>\<open>size\<close> exists afterwards; when \<^verbatim>\<open>q1\<close> comes first its eight values
  have been set as well.
\<close>

lemma null_queue_panics_in_order:
  "state (Collect_lmq
     (serving_in_order 1000 [''q2'']
        (Document (JObject [(''Queues'', JObject [(''q1'', JObject []), (''q2'', JNull)])])))
     collector0) =
   collector0\<lparr>expired := 5000001000, size_vec := [(''q2'', 0)]\<rparr> \<and>
   state (Collect_lmq
     (serving_in_order 1000 [''q1'']
        (Document (JObject [(''Queues'', JObject [(''q1'', JObject []), (''q2'', JNull)])])))
     collector0) =
   collector0\<lparr>expired := 5000001000, size_vec := [(''q1'', 0), (''q2'', 0)],
     memory := [(''q1'', 0)], push := [(''q1'', 0)], pull := [(''q1'', 0)],
     retentionMin := [(''q1'', 0)], retentionMax := [(''q1'', 0)],
     retentionMean := [(''q1'', 0)], retentionMedian := [(''q1'', 0)]\<rparr>"
  by (simp add: Collect_lmq_def updateStats_def serving_in_order_def collector0_def
      newLMQCollector_def lmqStats_field_def matches_def zero_lmqStats_def
      zero_queueStats_def zero_stats_def zero_count_def zero_retention_def
      WithLabelValues_def visit_def set_queue_def WithLabelValues_Set_update
      to_float64_def nearest_float64_def)

subsection \<open>Decoding the example documents\<close>

lemma matches_refl: "matches f f"
  by (simp add: matches_def)

lemma queueStats_keys:
  "\<not> matches ''Size'' ''Memory''" "\<not> matches ''Size'' ''Stats''"
  "\<not> matches ''Memory'' ''Stats''"
  by code_simp+

lemma stats_keys:
  "\<not> matches ''Push'' ''Pull''" "\<not> matches ''Push'' ''Retention''"
  "\<not> matches ''Pull'' ''Retention''"
  by code_simp+

lemma retention_keys:
  "\<not> matches ''Min'' ''Max''" "\<not> matches ''Min'' ''arithmetic_mean''"
  "\<not> matches ''Min'' ''Median''" "\<not> matches ''Max'' ''arithmetic_mean''"
  "\<not> matches ''Max'' ''Median''" "\<not> matches ''arithmetic_mean'' ''Median''"
  by code_simp+

lemma decode_queue_doc:
  assumes "- (2 ^ 63) \<le> sz" "sz < 2 ^ 63" "- (2 ^ 63) \<le> mem" "mem < 2 ^ 63"
    "- (2 ^ 63) \<le> psh" "psh < 2 ^ 63" "- (2 ^ 63) \<le> pl" "pl < 2 ^ 63"
    "ParseFloat (FracLit mn) = Some a" "ParseFloat (FracLit mx) = Some b"
    "ParseFloat (FracLit avg) = Some m" "ParseFloat (FracLit med) = Some d"
  shows "decode_pointer (queue_doc sz mem psh pl mn mx avg med) =
         Inr (Some \<lparr>Size = sz, Memory = mem,
                    Stats = \<lparr>Push = \<lparr>Count = psh\<rparr>, Pull = \<lparr>Count = pl\<rparr>,
                             Retention = \<lparr>Min_ret = a, Max_ret = b, Mean = m, Median = d\<rparr>\<rparr>\<rparr>)"
  using assms
  by (simp add: queue_doc_def queueStats_field_def stats_field_def count_field_def
      retention_field_def matches_refl queueStats_keys stats_keys retention_keys
      zero_queueStats_def zero_stats_def zero_count_def zero_retention_def)

lemma nearest_float64_examples:
  "nearest_float64 0.1 = 3602879701896397 / 36028797018963968"
  "nearest_float64 9.9 = 5573204538870989 / 562949953421312"
  "nearest_float64 2.2 = 2476979795053773 / 1125899906842624"
  "nearest_float64 1.5 = 1.5"
  "nearest_float64 0.5 = 0.5"
  "nearest_float64 3.5 = 3.5"
  "nearest_float64 1.25 = 1.25"
  by code_simp+

lemma ParseFloat_examples:
  "ParseFloat (FracLit 0.1) = Some (nearest_float64 0.1)"
  "ParseFloat (FracLit 9.9) = Some (nearest_float64 9.9)"
  "ParseFloat (FracLit 2.2) = Some (nearest_float64 2.2)"
  "ParseFloat (FracLit 1.5) = Some 1.5"
  "ParseFloat (FracLit 0.5) = Some 0.5"
  "ParseFloat (FracLit 3.5) = Some 3.5"
  "ParseFloat (FracLit 1.25) = Some 1.25"
  unfolding ParseFloat_def number.case nearest_float64_examples Let_def by simp_all

lemma to_float64_examples:
  "to_float64 5 = 5" "to_float64 1024 = 1024" "to_float64 10 = 10" "to_float64 3 = 3"
  "to_float64 4 = 4" "to_float64 512 = 512" "to_float64 8 = 8" "to_float64 2 = 2"
  "to_float64 7 = 7" "to_float64 2048 = 2048" "to_float64 20 = 20" "to_float64 6 = 6"
  by code_simp+

lemma decode_q1_doc: "decode_pointer q1_doc = Inr (Some q1_stats)"
  unfolding q1_doc_def q1_stats_def
  by (rule decode_queue_doc) (simp_all only: ParseFloat_examples, simp_all)

lemma decode_q1_earlier_doc: "decode_pointer q1_earlier_doc = Inr (Some q1_earlier_stats)"
  unfolding q1_earlier_doc_def q1_earlier_stats_def
  by (rule decode_queue_doc) (simp_all only: ParseFloat_examples, simp_all)

lemma decode_q2_doc: "decode_pointer q2_doc = Inr (Some q2_stats)"
  unfolding q2_doc_def q2_stats_def
  by (rule decode_queue_doc) (simp_all only: ParseFloat_examples, simp_all)

lemma Unmarshal_snapshot_q1:
  "Unmarshal (Document snapshot_q1) = Inr \<lparr>Queues = [(''q1'', Some q1_stats)]\<rparr>"
  by (simp add: snapshot_q1_def lmqStats_field_def matches_refl decode_q1_doc zero_lmqStats_def)

lemma Unmarshal_snapshot_q1_q2:
  "Unmarshal (Document snapshot_q1_q2) =
   Inr \<lparr>Queues = [(''q1'', Some q1_earlier_stats), (''q2'', Some q2_stats)]\<rparr>"
  by (simp add: snapshot_q1_q2_def lmqStats_field_def matches_refl decode_q1_earlier_doc
      decode_q2_doc zero_lmqStats_def)

lemma scrape_snapshot_q1_q2:
  "Collect_lmq (serving 1000 200 (Document snapshot_q1_q2)) collector0 =
   \<lparr>state = collector1, requests = [''http://localhost:9980/stats''], logged = [],
    emitted = Collect_vecs collector1, panicked = False\<rparr>"
  by (simp add: Collect_lmq_def updateStats_def serving_def collector0_def
      newLMQCollector_def Unmarshal_snapshot_q1_q2 set_queue_def WithLabelValues_Set_update
      collector1_def q1_earlier_stats_def q2_stats_def to_float64_examples
      del: Unmarshal.simps)

lemma scrape_snapshot_q1:
  "Collect_lmq (serving 6000000000 s (Document snapshot_q1)) collector1 =
   \<lparr>state = collector2, requests = [''http://localhost:9980/stats''], logged = [],
    emitted = Collect_vecs collector2, panicked = False\<rparr>"
  by (simp add: Collect_lmq_def updateStats_def serving_def Unmarshal_snapshot_q1
      set_queue_def WithLabelValues_Set_update collector1_def collector2_def q1_stats_def
      to_float64_examples del: Unmarshal.simps)


subsection \<open>Decoded maps have distinct keys\<close>

lemma decode_entries_distinct:
  "distinct (map fst m) \<Longrightarrow> decode_entries ms m = Inr m' \<Longrightarrow> distinct (map fst m')"
  by (induction ms m rule: decode_entries.induct)
    (auto simp add: distinct_update split: sum.splits)

lemma decode_map_distinct:
  "distinct (map fst m) \<Longrightarrow> decode_map j m = Inr m' \<Longrightarrow> distinct (map fst m')"
  by (cases j) (auto dest: decode_entries_distinct)

lemma lmqStats_field_distinct:
  "distinct (map fst (Queues s)) \<Longrightarrow> lmqStats_field k v s = Inr s' \<Longrightarrow>
   distinct (map fst (Queues s'))"
  by (auto simp add: lmqStats_field_def split: if_splits sum.splits dest: decode_map_distinct)

lemma decode_members_distinct:
  "distinct (map fst (Queues s)) \<Longrightarrow> decode_members lmqStats_field ms s = Inr s' \<Longrightarrow>
   distinct (map fst (Queues s'))"
proof (induction ms arbitrary: s)
  case Nil
  then show ?case by simp
next
  case (Cons p ms)
  obtain k v where p: "p = (k, v)"
    by (cases p)
  from Cons.prems obtain s1 where 1: "lmqStats_field k v s = Inr s1"
    and 2: "decode_members lmqStats_field ms s1 = Inr s'"
    by (auto simp add: p split: sum.splits)
  from Cons.prems(1) 1 have "distinct (map fst (Queues s1))"
    by (rule lmqStats_field_distinct)
  then show ?case
    using 2 by (rule Cons.IH)
qed

lemma Unmarshal_distinct: "Unmarshal b = Inr st \<Longrightarrow> distinct (map fst (Queues st))"
proof (cases b)
  case (Malformed s)
  then show "Unmarshal b = Inr st \<Longrightarrow> ?thesis" by simp
next
  case (Document j)
  then show "Unmarshal b = Inr st \<Longrightarrow> ?thesis"
    using decode_members_distinct [of "\<lparr>Queues = []\<rparr>" _ st]
    by (cases j) (auto simp add: zero_lmqStats_def)
qed

lemma fetched_distinct: "fetched w c = Some st \<Longrightarrow> distinct (map fst (Queues st))"
  by (auto simp add: fetched_def split: if_splits sum.splits dest: Unmarshal_distinct)

subsection \<open>The samples of one queue\<close>

lemma Collect_vec_mem:
  "map_of vc q = Some v \<Longrightarrow> (fqName, q, v) \<in> set (Collect_vec fqName vc)"
  by (force simp add: Collect_vec_def dest: map_of_SomeD)

lemma queue_samples_emitted:
  assumes "queue_series c q =
     [Some v1, Some v2, Some v3, Some v4, Some v5, Some v6, Some v7, Some v8]"
  shows "set (queue_samples q [v1, v2, v3, v4, v5, v6, v7, v8]) \<subseteq> set (Collect_vecs c)"
  using assms
  by (simp add: queue_series_def vecs_def queue_samples_def fqNames_def Collect_vecs_def
      Collect_vec_mem)

lemma of_queue_Collect_vec:
  "distinct (map fst vc) \<Longrightarrow> (q, v) \<in> set vc \<Longrightarrow>
   of_queue q (Collect_vec fqName vc) = [(fqName, q, v)]"
proof (induction vc)
  case Nil
  then show ?case by simp
next
  case (Cons p vc)
  have none: "of_queue q (Collect_vec fqName vc) = []" if "q \<notin> fst ` set vc"
    using that by (induction vc) (auto simp add: of_queue_def Collect_vec_def)
  show ?case
  proof (cases "fst p = q")
    case True
    with Cons.prems none show ?thesis
      by (cases p) (auto simp add: of_queue_def Collect_vec_def rev_image_eqI)
  next
    case False
    with Cons show ?thesis
      by (cases p) (auto simp add: of_queue_def Collect_vec_def)
  qed
qed

lemma of_queue_append: "of_queue q (xs @ ys) = of_queue q xs @ of_queue q ys"
  by (simp add: of_queue_def)

lemma queue_samples_exact:
  assumes "well_formed c"
    and "queue_series c q =
     [Some v1, Some v2, Some v3, Some v4, Some v5, Some v6, Some v7, Some v8]"
  shows "of_queue q (Collect_vecs c) = queue_samples q [v1, v2, v3, v4, v5, v6, v7, v8]"
proof -
  note f = of_queue_Collect_vec [OF _ map_of_SomeD]
  from assms have
    "of_queue q (Collect_vec ''lmq_queue_size'' (size_vec c)) = [(''lmq_queue_size'', q, v1)]"
    "of_queue q (Collect_vec ''lmq_queue_memory_bytes'' (memory c)) =
       [(''lmq_queue_memory_bytes'', q, v2)]"
    "of_queue q (Collect_vec ''lmq_queue_push'' (push c)) = [(''lmq_queue_push'', q, v3)]"
    "of_queue q (Collect_vec ''lmq_queue_pull'' (pull c)) = [(''lmq_queue_pull'', q, v4)]"
    "of_queue q (Collect_vec ''lmq_queue_retention_min'' (retentionMin c)) =
       [(''lmq_queue_retention_min'', q, v5)]"
    "of_queue q (Collect_vec ''lmq_queue_retention_max'' (retentionMax c)) =
       [(''lmq_queue_retention_max'', q, v6)]"
    "of_queue q (Collect_vec ''lmq_queue_retention_mean'' (retentionMean c)) =
       [(''lmq_queue_retention_mean'', q, v7)]"
    "of_queue q (Collect_vec ''lmq_queue_retention_median'' (retentionMedian c)) =
       [(''lmq_queue_retention_median'', q, v8)]"
    by (simp_all add: well_formed_def queue_series_def vecs_def f)
  then show ?thesis
    by (simp add: queue_samples_def fqNames_def Collect_vecs_def of_queue_append)
qed

subsection \<open>Vectors keep distinct labels\<close>

lemma well_formed_set_queue: "well_formed c \<Longrightarrow> well_formed (set_queue name st c)"
  by (simp add: well_formed_def vecs_def set_queue_def WithLabelValues_Set_update distinct_update)

lemma well_formed_range_Queues:
  "well_formed c \<Longrightarrow> well_formed (snd (range_Queues qs c))"
proof (induction qs c rule: range_Queues.induct)
  case (2 name rest c)
  then show ?case
    by (simp add: well_formed_def vecs_def distinct_WithLabelValues)
qed (simp_all add: well_formed_set_queue)

lemma well_formed_expired [simp]: "well_formed (c\<lparr>expired := t\<rparr>) = well_formed c"
  by (simp add: well_formed_def vecs_def)

lemma well_formed_Collect_lmq: "well_formed c \<Longrightarrow> well_formed (state (Collect_lmq w c))"
proof (cases "fetched w c")
  case None
  then show "well_formed c \<Longrightarrow> ?thesis"
    by (simp add: state_Collect_lmq updateStats_not_fetched)
next
  case (Some st)
  then show "well_formed c \<Longrightarrow> ?thesis"
    by (simp add: state_Collect_lmq updateStats_fetched well_formed_range_Queues)
qed

lemma well_formed_after: "well_formed c \<Longrightarrow> well_formed (after c ws)"
  by (induction ws arbitrary: c) (simp_all add: well_formed_Collect_lmq)

lemma well_formed_new: "well_formed (after (newLMQCollector u i) ws)"
  by (rule well_formed_after) (simp add: well_formed_def vecs_def newLMQCollector_def)

subsection \<open>Scrapes while the cache is fresh\<close>

lemma run_fresh:
  "\<forall>w\<in>set ws. now_check w < expired c \<Longrightarrow>
   run c ws =
     replicate (length ws)
       \<lparr>state = c, requests = [], logged = [], emitted = Collect_vecs c, panicked = False\<rparr>"
  by (induction ws) (simp_all add: Collect_lmq_fresh)

lemma after_fresh:
  "\<forall>w\<in>set ws. now_check w < expired c \<Longrightarrow> after c ws = c"
  by (induction ws) (simp_all add: Collect_lmq_fresh)

text \<open>
  Claim C1. Let every scrape of a sequence happen strictly before \<^verbatim>\<open>expired\<close>. Then
  no scrape of the sequence requests anything from upstream, each one emits the values the
  collector holds, as they are, and it leaves the collector as it was. So when the
  collector has come out of some scrape, that scrape and all the scrapes that follow it
  before \<^verbatim>\<open>expired\<close> make at most one request together. (After a scrape that fetched
  and decoded a snapshot, \<^verbatim>\<open>expired\<close> is the time of line 167 plus the interval: lemma
  \<open>expired_after_fetch\<close>.)
\<close>

theorem fresh_cache_no_fetch:
  assumes fresh: "\<forall>w\<in>set ws. now_check w < expired c"
  shows "(\<forall>s\<in>set (run c ws).
            requests s = [] \<and> emitted s = Collect_vecs c \<and> state s = c \<and>
            logged s = [] \<and> \<not> panicked s) \<and>
         after c ws = c \<and>
         (\<forall>c0 w0. state (Collect_lmq w0 c0) = c \<longrightarrow>
            length (concat (map requests (run c0 (w0 # ws)))) \<le> 1)"
proof -
  let ?s = "\<lparr>state = c, requests = [], logged = [], emitted = Collect_vecs c,
             panicked = False\<rparr>"
  have r: "run c ws = replicate (length ws) ?s"
    using fresh by (rule run_fresh)
  have none: "concat (map requests (run c ws)) = []"
    unfolding r by (induction ws) simp_all
  have "\<forall>s\<in>set (run c ws). s = ?s"
    unfolding r by simp
  moreover have "after c ws = c"
    using fresh by (rule after_fresh)
  moreover have "length (concat (map requests (run c0 (w0 # ws)))) \<le> 1"
    if "state (Collect_lmq w0 c0) = c" for c0 w0
    using that requests_le_1 [of w0 c0] by (simp add: none)
  ultimately show ?thesis
    by auto
qed

theorem fresh_cache_no_fetch_witness:
  "now_check (unreachable 2000) < expired collector1 \<and>
   now_check (serving 3000 200 (Malformed ''not json'')) < expired collector1 \<and>
   requests (Collect_lmq (unreachable 2000) collector1) = [] \<and>
   emitted (Collect_lmq (unreachable 2000) collector1) = Collect_vecs collector1 \<and>
   after collector1 [unreachable 2000, serving 3000 200 (Malformed ''not json'')] =
     collector1 \<and>
   length (concat (map requests
     (run collector0
        [serving 1000 200 (Document snapshot_q1_q2), unreachable 2000,
         serving 3000 200 (Malformed ''not json'')]))) \<le> 1"
proof -
  let ?ws = "[unreachable 2000, serving 3000 200 (Malformed ''not json'')]"
  have h1: "now_check (unreachable 2000) < expired collector1"
    by (simp add: unreachable_def collector1_def)
  have h2: "now_check (serving 3000 200 (Malformed ''not json'')) < expired collector1"
    by (simp add: serving_def collector1_def)
  have h: "\<forall>w\<in>set ?ws. now_check w < expired collector1"
    using h1 h2 by simp
  note t = fresh_cache_no_fetch [OF h]
  have m: "Collect_lmq (unreachable 2000) collector1 \<in> set (run collector1 ?ws)"
    by simp
  from t have "\<forall>s\<in>set (run collector1 ?ws).
      requests s = [] \<and> emitted s = Collect_vecs collector1 \<and> state s = collector1 \<and>
      logged s = [] \<and> \<not> panicked s"
    by (rule conjunct1)
  from bspec [OF this m]
  have a: "requests (Collect_lmq (unreachable 2000) collector1) = []"
    and b: "emitted (Collect_lmq (unreachable 2000) collector1) = Collect_vecs collector1"
    by blast+
  from t have c: "after collector1 ?ws = collector1"
    by blast
  have s: "state (Collect_lmq (serving 1000 200 (Document snapshot_q1_q2)) collector0) =
      collector1"
    by (simp add: scrape_snapshot_q1_q2)
  from t have "\<forall>c0 w0. state (Collect_lmq w0 c0) = collector1 \<longrightarrow>
      length (concat (map requests (run c0 (w0 # ?ws)))) \<le> 1"
    by blast
  with s have d: "length (concat (map requests
      (run collector0 (serving 1000 200 (Document snapshot_q1_q2) # ?ws)))) \<le> 1"
    by blast
  from h1 h2 a b c d show ?thesis
    by blast
qed

subsection \<open>Scrapes whose refresh fails\<close>

text \<open>
  Claim C2. When \<^verbatim>\<open>http.Get\<close> returns an error, or reading the body does, or
  \<^verbatim>\<open>json.Unmarshal\<close> does (the body is not JSON, or does not fit the struct), the
  collector after the scrape is the collector before it: \<^verbatim>\<open>expired\<close> and every value of
  every vector are as they were.
\<close>

theorem failed_refresh_keeps_state:
  assumes "httpGet w (uri c) = Inl e \<or>
     (\<exists>r. httpGet w (uri c) = Inr r \<and>
        (Body r = Inl e \<or> (\<exists>b. Body r = Inr b \<and> Unmarshal b = Inl e)))"
  shows "state (Collect_lmq w c) = c \<and>
         expired (state (Collect_lmq w c)) = expired c \<and>
         (\<forall>q. queue_series (state (Collect_lmq w c)) q = queue_series c q)"
  using updateStats_failure [OF assms] by (simp add: Collect_lmq_def)

theorem failed_refresh_keeps_state_witness:
  "expired collector1 \<le> now_check (serving 6000000000 200 (Malformed ''not json'')) \<and>
   httpGet (serving 6000000000 200 (Malformed ''not json'')) (uri collector1) =
     Inr \<lparr>StatusCode = 200, Body = Inr (Malformed ''not json'')\<rparr> \<and>
   Unmarshal (Malformed ''not json'') = Inl SyntaxError \<and>
   state (Collect_lmq (serving 6000000000 200 (Malformed ''not json'')) collector1) =
     collector1 \<and>
   expired (state (Collect_lmq (serving 6000000000 200 (Malformed ''not json'')) collector1)) =
     5000001000"
proof -
  let ?w = "serving 6000000000 200 (Malformed ''not json'')"
  have g: "httpGet ?w (uri collector1) =
      Inr \<lparr>StatusCode = 200, Body = Inr (Malformed ''not json'')\<rparr>"
    by (simp add: serving_def)
  then have "httpGet ?w (uri collector1) = Inl SyntaxError \<or>
     (\<exists>r. httpGet ?w (uri collector1) = Inr r \<and>
        (Body r = Inl SyntaxError \<or>
         (\<exists>b. Body r = Inr b \<and> Unmarshal b = Inl SyntaxError)))"
    by simp
  from failed_refresh_keeps_state [OF this] g show ?thesis
    by (simp add: serving_def collector1_def)
qed

text \<open>
  Claim C4. When \<^verbatim>\<open>updateStats\<close> returns an error, \<^verbatim>\<open>Collect\<close> writes the one log line
  with that error, sends no metric on the channel, and returns: it does not panic.
\<close>

theorem failed_refresh_is_logged_and_silent:
  assumes "fst (updateStats w c) = Err e"
  shows "logged (Collect_lmq w c) = [Failed_to_update_metrics e] \<and>
         emitted (Collect_lmq w c) = [] \<and>
         \<not> panicked (Collect_lmq w c)"
  using assms by (simp add: Collect_lmq_Err)

theorem failed_refresh_is_logged_and_silent_witness:
  "fst (updateStats (unreachable 6000000000) collector1) =
     Err (UrlError ''connection refused'') \<and>
   logged (Collect_lmq (unreachable 6000000000) collector1) =
     [Failed_to_update_metrics (UrlError ''connection refused'')] \<and>
   emitted (Collect_lmq (unreachable 6000000000) collector1) = [] \<and>
   \<not> panicked (Collect_lmq (unreachable 6000000000) collector1)"
proof -
  have h: "fst (updateStats (unreachable 6000000000) collector1) =
      Err (UrlError ''connection refused'')"
    by (simp add: updateStats_def unreachable_def collector1_def)
  from failed_refresh_is_logged_and_silent [OF h] h show ?thesis
    by simp
qed

lemma refresh_fails_Err:
  "refresh_fails w c \<Longrightarrow> \<exists>e. updateStats w c = (Err e, c, [uri c])"
  by (auto simp add: refresh_fails_def updateStats_def split: sum.splits)

lemma Collect_lmq_refresh_fails:
  "refresh_fails w c \<Longrightarrow>
   emitted (Collect_lmq w c) = [] \<and> state (Collect_lmq w c) = c \<and>
   logged (Collect_lmq w c) \<noteq> [] \<and> \<not> panicked (Collect_lmq w c)"
  by (auto simp add: Collect_lmq_def dest!: refresh_fails_Err)

text \<open>
  Claim C3, as stated, fails: a scrape whose refresh fails returns no values at all, not
  the values of the last successful fetch. Here the collector holds the values of two
  queues (it emitted them on the scrape at time 1000), and the scrape at time 6000000000,
  when upstream does not answer, emits nothing.
\<close>

theorem outage_scrape_counterexample:
  "emitted (Collect_lmq (serving 1000 200 (Document snapshot_q1_q2)) collector0) =
     Collect_vecs collector1 \<and>
   state (Collect_lmq (serving 1000 200 (Document snapshot_q1_q2)) collector0) = collector1 \<and>
   length (Collect_vecs collector1) = 16 \<and>
   refresh_fails (unreachable 6000000000) collector1 \<and>
   emitted (Collect_lmq (unreachable 6000000000) collector1) = []"
proof -
  have f: "refresh_fails (unreachable 6000000000) collector1"
    by (simp add: refresh_fails_def unreachable_def collector1_def)
  have "length (Collect_vecs collector1) = 16"
    by (simp add: Collect_vecs_def Collect_vec_def collector1_def)
  with f Collect_lmq_refresh_fails [OF f] show ?thesis
    by (simp add: scrape_snapshot_q1_q2)
qed

text \<open>
  Claim C3, amended. While upstream is failing (the cache has expired and the fetch, the
  read or the parse returns an error), every scrape returns no values, and the collector
  keeps the values of the last successful fetch unchanged: they are what it holds when
  upstream recovers.
\<close>

theorem outage_scrapes_are_empty:
  assumes "\<forall>w\<in>set ws. refresh_fails w c"
  shows "(\<forall>s\<in>set (run c ws). emitted s = [] \<and> state s = c \<and> \<not> panicked s) \<and>
         after c ws = c \<and> queue_series (after c ws) = queue_series c"
  using assms by (induction ws) (simp_all add: Collect_lmq_refresh_fails)

theorem outage_scrapes_are_empty_witness:
  "refresh_fails (unreachable 6000000000) collector1 \<and>
   refresh_fails (serving 7000000000 200 (Malformed ''not json'')) collector1 \<and>
   emitted (Collect_lmq (unreachable 6000000000) collector1) = [] \<and>
   after collector1
     [unreachable 6000000000, serving 7000000000 200 (Malformed ''not json'')] = collector1"
proof -
  let ?ws = "[unreachable 6000000000, serving 7000000000 200 (Malformed ''not json'')]"
  have f1: "refresh_fails (unreachable 6000000000) collector1"
    by (simp add: refresh_fails_def unreachable_def collector1_def)
  have f2: "refresh_fails (serving 7000000000 200 (Malformed ''not json'')) collector1"
    by (simp add: refresh_fails_def serving_def collector1_def)
  from f1 f2 have h: "\<forall>w\<in>set ?ws. refresh_fails w collector1"
    by simp
  note t = outage_scrapes_are_empty [OF h]
  have m: "Collect_lmq (unreachable 6000000000) collector1 \<in> set (run collector1 ?ws)"
    by simp
  from t have "\<forall>s\<in>set (run collector1 ?ws).
      emitted s = [] \<and> state s = collector1 \<and> \<not> panicked s"
    by (rule conjunct1)
  from bspec [OF this m] have a: "emitted (Collect_lmq (unreachable 6000000000) collector1) = []"
    by blast
  from t have b: "after collector1 ?ws = collector1"
    by blast
  from f1 f2 a b show ?thesis
    by blast
qed

subsection \<open>Successful refreshes\<close>

lemma fetched_snapshot_q1:
  assumes "expired c \<le> now_check w" and "httpGet w (uri c) = Inr r"
    and "Body r = Inr (Document snapshot_q1)"
  shows "fetched w c = Some \<lparr>Queues = [(''q1'', Some q1_stats)]\<rparr>"
  using assms by (simp add: fetched_def Unmarshal_snapshot_q1 del: Unmarshal.simps)

lemma relabel_q1_stats:
  "relabel q1_stats =
     [5, 1024, 10, 3, nearest_float64 0.1, nearest_float64 9.9, nearest_float64 2.2, 1.5]"
  by (simp add: relabel_def q1_stats_def to_float64_examples)

text \<open>
  Claim C5. When the cache has expired and upstream answers with the snapshot of the
  specification's example, then after the scrape the collector holds for \<^verbatim>\<open>q1\<close> the
  values size 5, memory 1024, push 10, pull 3, and for the retention the \<^verbatim>\<open>float64\<close>
  values of 0.1, 9.9, 2.2 (the mean, read from the key \<^verbatim>\<open>arithmetic_mean\<close>) and 1.5;
  and the samples with the label \<^verbatim>\<open>queue="q1"\<close> that the scrape emits are exactly these
  eight. This holds whatever the collector held for \<^verbatim>\<open>q1\<close> before: push and pull are
  set to the reported totals, and nothing is added to an earlier value. (The collector is
  one whose vectors hold no label twice, as every collector reached from a new one is:
  lemma \<open>well_formed_new\<close>.)
\<close>

theorem relabeling_example:
  assumes "well_formed c" and "expired c \<le> now_check w" and "httpGet w (uri c) = Inr r"
    and "Body r = Inr (Document snapshot_q1)"
  shows "queue_series (state (Collect_lmq w c)) ''q1'' =
           [Some 5, Some 1024, Some 10, Some 3, Some (nearest_float64 0.1),
            Some (nearest_float64 9.9), Some (nearest_float64 2.2), Some 1.5] \<and>
         of_queue ''q1'' (emitted (Collect_lmq w c)) =
           [(''lmq_queue_size'', ''q1'', 5),
            (''lmq_queue_memory_bytes'', ''q1'', 1024),
            (''lmq_queue_push'', ''q1'', 10),
            (''lmq_queue_pull'', ''q1'', 3),
            (''lmq_queue_retention_min'', ''q1'', nearest_float64 0.1),
            (''lmq_queue_retention_max'', ''q1'', nearest_float64 9.9),
            (''lmq_queue_retention_mean'', ''q1'', nearest_float64 2.2),
            (''lmq_queue_retention_median'', ''q1'', 1.5)]"
proof -
  let ?st = "\<lparr>Queues = [(''q1'', Some q1_stats)]\<rparr>"
  let ?c' = "state (Collect_lmq w c)"
  have f: "fetched w c = Some ?st"
    using assms(2-4) by (rule fetched_snapshot_q1)
  have u: "updateStats w c =
      (NoError, set_queue ''q1'' q1_stats (c\<lparr>expired := now_update w + interval c\<rparr>), [uri c])"
    by (simp add: updateStats_fetched [OF f])
  have s: "queue_series ?c' ''q1'' = map Some (relabel q1_stats)"
    by (simp add: state_Collect_lmq u queue_series_set_queue)
  have wf: "well_formed ?c'"
    using assms(1) by (rule well_formed_Collect_lmq)
  have e: "emitted (Collect_lmq w c) = Collect_vecs ?c'"
    by (simp add: emitted_Collect_lmq u)
  from s have s': "queue_series ?c' ''q1'' =
      [Some 5, Some 1024, Some 10, Some 3, Some (nearest_float64 0.1),
       Some (nearest_float64 9.9), Some (nearest_float64 2.2), Some 1.5]"
    by (simp add: relabel_q1_stats)
  from queue_samples_exact [OF wf s'] have
    "of_queue ''q1'' (emitted (Collect_lmq w c)) =
       queue_samples ''q1''
         [5, 1024, 10, 3, nearest_float64 0.1, nearest_float64 9.9, nearest_float64 2.2, 1.5]"
    by (simp add: e)
  with s' show ?thesis
    by (simp add: queue_samples_def fqNames_def)
qed

lemma well_formed_collector1: "well_formed collector1"
  by (simp add: well_formed_def vecs_def collector1_def)

theorem relabeling_example_witness:
  "well_formed collector1 \<and>
   expired collector1 \<le> now_check (serving 6000000000 200 (Document snapshot_q1)) \<and>
   push collector1 = [(''q1'', 8), (''q2'', 20)] \<and>
   queue_series
     (state (Collect_lmq (serving 6000000000 200 (Document snapshot_q1)) collector1)) ''q1'' =
     [Some 5, Some 1024, Some 10, Some 3, Some (nearest_float64 0.1),
      Some (nearest_float64 9.9), Some (nearest_float64 2.2), Some 1.5]"
proof -
  let ?w = "serving 6000000000 200 (Document snapshot_q1)"
  have 1: "expired collector1 \<le> now_check ?w"
    by (simp add: serving_def collector1_def)
  have 2: "httpGet ?w (uri collector1) =
      Inr \<lparr>StatusCode = 200, Body = Inr (Document snapshot_q1)\<rparr>"
    by (simp add: serving_def)
  have 3: "Body \<lparr>StatusCode = 200, Body = Inr (Document snapshot_q1)\<rparr> =
      Inr (Document snapshot_q1)"
    by simp
  have 4: "push collector1 = [(''q1'', 8), (''q2'', 20)]"
    by (simp add: collector1_def)
  from relabeling_example [OF well_formed_collector1 1 2 3] well_formed_collector1 1 4
  show ?thesis
    by blast
qed

text \<open>
  Claim C6. Take two successful refreshes in a row, the first of a snapshot that has the
  queue \<open>q\<close>, the second of a snapshot that has not. After the second the collector holds
  for \<open>q\<close> the eight values of the first snapshot, and the second scrape emits them. In
  general the second refresh leaves the values of every queue that its snapshot does not
  name as they were.
\<close>

theorem absent_queue_keeps_series:
  assumes f1: "fetched w1 c = Some s1" and ok1: "fst (updateStats w1 c) = NoError"
    and f2: "fetched w2 (state (Collect_lmq w1 c)) = Some s2"
    and ok2: "fst (updateStats w2 (state (Collect_lmq w1 c))) = NoError"
    and present: "(q, Some st) \<in> set (Queues s1)"
    and absent: "q \<notin> names s2"
  shows "queue_series (state (Collect_lmq w2 (state (Collect_lmq w1 c)))) q =
           map Some (relabel st) \<and>
         set (queue_samples q (relabel st)) \<subseteq>
           set (emitted (Collect_lmq w2 (state (Collect_lmq w1 c)))) \<and>
         (\<forall>q'. q' \<notin> names s2 \<longrightarrow>
            queue_series (state (Collect_lmq w2 (state (Collect_lmq w1 c)))) q' =
            queue_series (state (Collect_lmq w1 c)) q')"
proof -
  let ?c1 = "state (Collect_lmq w1 c)"
  let ?c2 = "state (Collect_lmq w2 ?c1)"
  have one: "queue_series ?c1 q = map Some (relabel st)"
    using distinct_visit [OF fetched_distinct [OF f1], of "range_order w1"] present ok1
    by (simp add: state_Collect_lmq updateStats_fetched [OF f1] range_Queues_series
        set_visit [OF fetched_distinct [OF f1]])
  have frame: "queue_series ?c2 q' = queue_series ?c1 q'" if "q' \<notin> names s2" for q'
    using that
    by (simp add: state_Collect_lmq [of w2] updateStats_fetched [OF f2] range_Queues_frame
        names_def keys_visit)
  have two: "queue_series ?c2 q = map Some (relabel st)"
    using frame [OF absent] one by simp
  have e: "emitted (Collect_lmq w2 ?c1) = Collect_vecs ?c2"
    using ok2 by (simp add: emitted_Collect_lmq)
  have "set (queue_samples q (relabel st)) \<subseteq> set (Collect_vecs ?c2)"
    using two unfolding relabel_def by (intro queue_samples_emitted) simp
  with two frame e show ?thesis
    by simp
qed

lemma fetched_first: 
  "fetched (serving 1000 200 (Document snapshot_q1_q2)) collector0 =
     Some \<lparr>Queues = [(''q1'', Some q1_earlier_stats), (''q2'', Some q2_stats)]\<rparr>"
  by (simp add: fetched_def serving_def collector0_def newLMQCollector_def
      Unmarshal_snapshot_q1_q2 del: Unmarshal.simps)

lemma fetched_second:
  "fetched (serving 6000000000 200 (Document snapshot_q1)) collector1 =
     Some \<lparr>Queues = [(''q1'', Some q1_stats)]\<rparr>"
  by (simp add: fetched_def serving_def collector1_def Unmarshal_snapshot_q1
      del: Unmarshal.simps)

lemma relabel_q2_stats: "relabel q2_stats = [7, 2048, 20, 6, 0.5, 3.5, 1.5, 1.25]"
  by (simp add: relabel_def q2_stats_def to_float64_examples)

theorem absent_queue_keeps_series_witness:
  "fetched (serving 1000 200 (Document snapshot_q1_q2)) collector0 =
     Some \<lparr>Queues = [(''q1'', Some q1_earlier_stats), (''q2'', Some q2_stats)]\<rparr> \<and>
   fetched (serving 6000000000 200 (Document snapshot_q1))
     (state (Collect_lmq (serving 1000 200 (Document snapshot_q1_q2)) collector0)) =
     Some \<lparr>Queues = [(''q1'', Some q1_stats)]\<rparr> \<and>
   ''q2'' \<notin> names \<lparr>Queues = [(''q1'', Some q1_stats)]\<rparr> \<and>
   queue_series
     (state (Collect_lmq (serving 6000000000 200 (Document snapshot_q1))
        (state (Collect_lmq (serving 1000 200 (Document snapshot_q1_q2)) collector0))))
     ''q2'' =
     [Some 7, Some 2048, Some 20, Some 6, Some 0.5, Some 3.5, Some 1.5, Some 1.25]"
proof -
  let ?w1 = "serving 1000 200 (Document snapshot_q1_q2)"
  let ?w2 = "serving 6000000000 200 (Document snapshot_q1)"
  let ?s1 = "\<lparr>Queues = [(''q1'', Some q1_earlier_stats), (''q2'', Some q2_stats)]\<rparr>"
  let ?s2 = "\<lparr>Queues = [(''q1'', Some q1_stats)]\<rparr>"
  have c1: "state (Collect_lmq ?w1 collector0) = collector1"
    by (simp add: scrape_snapshot_q1_q2)
  have f1: "fetched ?w1 collector0 = Some ?s1"
    by (rule fetched_first)
  have f2: "fetched ?w2 (state (Collect_lmq ?w1 collector0)) = Some ?s2"
    unfolding c1 by (rule fetched_second)
  have ok1: "fst (updateStats ?w1 collector0) = NoError"
    using updateStats_fetched [OF f1] by (simp add: serving_def)
  have ok2: "fst (updateStats ?w2 (state (Collect_lmq ?w1 collector0))) = NoError"
    by (simp add: updateStats_fetched [OF f2])
  have present: "(''q2'', Some q2_stats) \<in> set (Queues ?s1)"
    by simp
  have absent: "''q2'' \<notin> names ?s2"
    by (simp add: names_def)
  from absent_queue_keeps_series [OF f1 ok1 f2 ok2 present absent]
  have "queue_series (state (Collect_lmq ?w2 (state (Collect_lmq ?w1 collector0)))) ''q2'' =
      map Some (relabel q2_stats)"
    by (rule conjunct1)
  then have "queue_series (state (Collect_lmq ?w2 (state (Collect_lmq ?w1 collector0)))) ''q2'' =
      [Some 7, Some 2048, Some 20, Some 6, Some 0.5, Some 3.5, Some 1.5, Some 1.25]"
    by (simp add: relabel_q2_stats)
  with f1 f2 absent show ?thesis
    by blast
qed

subsection \<open>The queues a scrape emits\<close>

text \<open>
  Claim C7, as stated, fails in both directions. The collector holds \<^verbatim>\<open>q1\<close> and
  \<^verbatim>\<open>q2\<close>; the scrape that fetches a snapshot with \<^verbatim>\<open>q1\<close> alone emits the labels
  \<^verbatim>\<open>q1\<close> and \<^verbatim>\<open>q2\<close>, more than the last snapshot has; and the scrape whose fetch
  fails emits no label at all.
\<close>

theorem last_snapshot_counterexample:
  "fetched (serving 6000000000 200 (Document snapshot_q1)) collector1 =
     Some \<lparr>Queues = [(''q1'', Some q1_stats)]\<rparr> \<and>
   names \<lparr>Queues = [(''q1'', Some q1_stats)]\<rparr> = {''q1''} \<and>
   labels (emitted (Collect_lmq (serving 6000000000 200 (Document snapshot_q1)) collector1)) =
     {''q1'', ''q2''} \<and>
   labels (emitted (Collect_lmq (unreachable 6000000000) collector1)) = {}"
proof -
  have "labels (Collect_vecs collector2) = {''q1'', ''q2''}"
    by (auto simp add: labels_def Collect_vecs_def Collect_vec_def collector2_def)
  moreover have "emitted (Collect_lmq (unreachable 6000000000) collector1) = []"
    by (simp add: Collect_lmq_def updateStats_def unreachable_def collector1_def)
  ultimately show ?thesis
    by (simp add: fetched_second names_def scrape_snapshot_q1 labels_def)
qed

lemma labels_append [simp]: "labels (xs @ ys) = labels xs \<union> labels ys"
  by (simp add: labels_def image_Un)

lemma labels_Collect_vec [simp]: "labels (Collect_vec fqName vc) = fst ` set vc"
  by (force simp add: labels_def Collect_vec_def)

lemma labels_set_queue:
  "labels (Collect_vecs (set_queue name st c)) = insert name (labels (Collect_vecs c))"
  by (simp add: Collect_vecs_def set_queue_def WithLabelValues_Set_update dom_update)

lemma labels_range_Queues:
  "fst (range_Queues qs c) = NoError \<Longrightarrow>
   labels (Collect_vecs (snd (range_Queues qs c))) = labels (Collect_vecs c) \<union> fst ` set qs"
  by (induction qs c rule: range_Queues.induct) (simp_all add: labels_set_queue)

lemma range_Queues_ret:
  "fst (range_Queues qs c) = NoError \<or> fst (range_Queues qs c) = Panic"
  by (induction qs c rule: range_Queues.induct) simp_all

lemma updateStats_fetched_ret:
  "fetched w c = Some st \<Longrightarrow> fst (updateStats w c) \<noteq> Panic \<Longrightarrow>
   fst (updateStats w c) = NoError"
  using range_Queues_ret [of "visit (range_order w) (Queues st)"
      "c\<lparr>expired := now_update w + interval c\<rparr>"]
  by (auto simp add: updateStats_fetched)

lemma labels_Collect_lmq:
  assumes "\<not> panicked (Collect_lmq w c)"
  shows "labels (Collect_vecs (state (Collect_lmq w c))) =
     labels (Collect_vecs c) \<union> (case fetched w c of None \<Rightarrow> {} | Some st \<Rightarrow> names st)"
proof (cases "fetched w c")
  case None
  then show ?thesis
    by (simp add: state_Collect_lmq updateStats_not_fetched)
next
  case (Some st)
  with assms have "fst (updateStats w c) = NoError"
    by (simp add: panicked_Collect_lmq updateStats_fetched_ret)
  with Some show ?thesis
    by (simp add: state_Collect_lmq updateStats_fetched labels_range_Queues names_def
        keys_visit)
qed

lemma labels_after:
  "\<forall>s\<in>set (run c ws). \<not> panicked s \<Longrightarrow>
   labels (Collect_vecs (after c ws)) =
     labels (Collect_vecs c) \<union> \<Union> (names ` set (snapshots c ws))"
proof (induction ws arbitrary: c)
  case Nil
  then show ?case by simp
next
  case (Cons w ws)
  then have 1: "\<not> panicked (Collect_lmq w c)"
    and 2: "\<forall>s\<in>set (run (state (Collect_lmq w c)) ws). \<not> panicked s"
    by simp_all
  show ?case
    by (simp add: Cons.IH [OF 2] labels_Collect_lmq [OF 1] Un_assoc split: option.splits)
qed

lemma last_run:
  "ws \<noteq> [] \<Longrightarrow> state (last (run c ws)) = after c ws"
proof (induction ws arbitrary: c)
  case Nil
  then show ?case by simp
next
  case (Cons w ws)
  show ?case
  proof (cases ws)
    case Nil
    then show ?thesis by simp
  next
    case (Cons w' ws')
    with Cons.IH [of "state (Collect_lmq w c)"] show ?thesis
      by simp
  qed
qed

lemma run_is_Collect_lmq:
  "s \<in> set (run c ws) \<Longrightarrow> \<exists>w c'. s = Collect_lmq w c'"
  by (induction ws arbitrary: c) auto

lemma emitted_by_log:
  "emitted (Collect_lmq w c) =
     (if logged (Collect_lmq w c) = [] \<and> \<not> panicked (Collect_lmq w c)
      then Collect_vecs (state (Collect_lmq w c)) else [])"
  by (cases "updateStats w c") (auto simp add: Collect_lmq_def split: ret.splits)

text \<open>
  Claim C7, amended. Start from a new collector and let no scrape panic (no snapshot has a
  \<^verbatim>\<open>null\<close> queue). Then a scrape whose refresh returns no error emits values for
  exactly the queues of all the snapshots decoded so far, its own included: a queue stays
  once it has been seen. A scrape whose refresh returns an error emits values for no queue.
\<close>

theorem emitted_labels_accumulate:
  assumes "ws \<noteq> []"
    and "\<forall>s\<in>set (run (newLMQCollector u i) ws). \<not> panicked s"
  shows "labels (emitted (last (run (newLMQCollector u i) ws))) =
     (if logged (last (run (newLMQCollector u i) ws)) = []
      then \<Union> (names ` set (snapshots (newLMQCollector u i) ws))
      else {})"
proof -
  let ?c = "newLMQCollector u i"
  let ?s = "last (run ?c ws)"
  from assms(1) have "run ?c ws \<noteq> []"
    by (cases ws) simp_all
  then have mem: "?s \<in> set (run ?c ws)"
    by (rule last_in_set)
  then obtain w c' where s: "?s = Collect_lmq w c'"
    by (blast dest: run_is_Collect_lmq)
  from mem assms(2) have np: "\<not> panicked ?s"
    by blast
  have e: "emitted ?s = (if logged ?s = [] then Collect_vecs (after ?c ws) else [])"
    using np last_run [OF assms(1), of ?c] unfolding s by (simp add: emitted_by_log)
  have "labels (Collect_vecs ?c) = {}"
    by (simp add: Collect_vecs_def newLMQCollector_def)
  with labels_after [OF assms(2)] e show ?thesis
    by (simp add: labels_def)
qed


theorem emitted_labels_accumulate_witness:
  "\<not> panicked (Collect_lmq (serving 1000 200 (Document snapshot_q1_q2)) collector0) \<and>
   \<not> panicked (Collect_lmq (serving 6000000000 200 (Document snapshot_q1)) collector1) \<and>
   snapshots collector0
     [serving 1000 200 (Document snapshot_q1_q2),
      serving 6000000000 200 (Document snapshot_q1)] =
     [\<lparr>Queues = [(''q1'', Some q1_earlier_stats), (''q2'', Some q2_stats)]\<rparr>,
      \<lparr>Queues = [(''q1'', Some q1_stats)]\<rparr>] \<and>
   labels (emitted (last (run collector0
     [serving 1000 200 (Document snapshot_q1_q2),
      serving 6000000000 200 (Document snapshot_q1)]))) = {''q1'', ''q2''}"
proof -
  let ?w1 = "serving 1000 200 (Document snapshot_q1_q2)"
  let ?w2 = "serving 6000000000 200 (Document snapshot_q1)"
  let ?ws = "[?w1, ?w2]"
  have r: "run collector0 ?ws = [Collect_lmq ?w1 collector0, Collect_lmq ?w2 collector1]"
    by (simp add: scrape_snapshot_q1_q2)
  have p1: "\<not> panicked (Collect_lmq ?w1 collector0)"
    by (simp add: scrape_snapshot_q1_q2)
  have p2: "\<not> panicked (Collect_lmq ?w2 collector1)"
    by (simp add: scrape_snapshot_q1)
  have sn: "snapshots collector0 ?ws =
      [\<lparr>Queues = [(''q1'', Some q1_earlier_stats), (''q2'', Some q2_stats)]\<rparr>,
       \<lparr>Queues = [(''q1'', Some q1_stats)]\<rparr>]"
    by (simp add: fetched_first fetched_second scrape_snapshot_q1_q2)
  have h1: "?ws \<noteq> []"
    by simp
  have h2: "\<forall>s\<in>set (run (newLMQCollector ''http://localhost:9980/stats'' 5000000000) ?ws).
      \<not> panicked s"
    unfolding collector0_def [symmetric] r using p1 p2 by simp
  have lg: "logged (last (run collector0 ?ws)) = []"
    unfolding r by (simp add: scrape_snapshot_q1)
  from emitted_labels_accumulate [OF h1 h2]
  have "labels (emitted (last (run collector0 ?ws))) =
      \<Union> (names ` set (snapshots collector0 ?ws))"
    unfolding collector0_def [symmetric] lg by (simp only: refl if_True)
  then have "labels (emitted (last (run collector0 ?ws))) = {''q1'', ''q2''}"
    unfolding sn by (auto simp add: names_def)
  with p1 p2 sn show ?thesis
    by blast
qed

subsection \<open>The status of the response\<close>

text \<open>
  Claim C8, as stated, fails: \<^verbatim>\<open>updateStats\<close> never reads \<^verbatim>\<open>resp.StatusCode\<close>. A
  response with status 500 whose body is a snapshot is decoded like any other: the values
  of \<^verbatim>\<open>q1\<close> are overwritten, \<^verbatim>\<open>expired\<close> moves from 5000001000 to 11000000000,
  nothing is logged, and the values are emitted.
\<close>

theorem status_500_counterexample:
  "httpGet (serving 6000000000 500 (Document snapshot_q1)) (uri collector1) =
     Inr \<lparr>StatusCode = 500, Body = Inr (Document snapshot_q1)\<rparr> \<and>
   expired collector1 = 5000001000 \<and>
   expired (state (Collect_lmq (serving 6000000000 500 (Document snapshot_q1)) collector1)) =
     11000000000 \<and>
   size_vec collector1 = [(''q1'', 4), (''q2'', 7)] \<and>
   size_vec (state (Collect_lmq (serving 6000000000 500 (Document snapshot_q1)) collector1)) =
     [(''q1'', 5), (''q2'', 7)] \<and>
   logged (Collect_lmq (serving 6000000000 500 (Document snapshot_q1)) collector1) = [] \<and>
   length (emitted (Collect_lmq (serving 6000000000 500 (Document snapshot_q1)) collector1)) =
     16"
  unfolding scrape_snapshot_q1
  by (simp add: serving_def collector1_def collector2_def Collect_vecs_def Collect_vec_def)

text \<open>
  Claim C8, amended. A non-2xx status alone does not make a response a failure. When the
  cache has expired and the client hands over a response with a non-2xx status, what
  happens is decided by the body read from it, as for any response. If reading the body or
  parsing it returns an error, the failure is logged, the collector stays as it was
  (\<^verbatim>\<open>expired\<close> included) and nothing is emitted. If the body parses, nothing is logged,
  \<^verbatim>\<open>expired\<close> becomes now + interval, the loop runs over the snapshot, and a scrape
  that does not panic emits the values the collector then holds.
\<close>

theorem non_2xx_status_alone_is_no_failure:
  assumes "expired c \<le> now_check w" and "httpGet w (uri c) = Inr r" and "delivered r"
    and "StatusCode r < 200 \<or> 300 \<le> StatusCode r"
  shows "(case Body r of
            Inl e \<Rightarrow>
              Collect_lmq w c =
                \<lparr>state = c, requests = [uri c], logged = [Failed_to_update_metrics e],
                 emitted = [], panicked = False\<rparr>
          | Inr b \<Rightarrow>
              (case Unmarshal b of
                 Inl e \<Rightarrow>
                   Collect_lmq w c =
                     \<lparr>state = c, requests = [uri c], logged = [Failed_to_update_metrics e],
                      emitted = [], panicked = False\<rparr>
               | Inr st \<Rightarrow>
                   fetched w c = Some st \<and>
                   logged (Collect_lmq w c) = [] \<and>
                   expired (state (Collect_lmq w c)) = now_update w + interval c \<and>
                   state (Collect_lmq w c) =
                     snd (range_Queues (visit (range_order w) (Queues st))
                            (c\<lparr>expired := now_update w + interval c\<rparr>)) \<and>
                   emitted (Collect_lmq w c) =
                     (if panicked (Collect_lmq w c) then []
                      else Collect_vecs (state (Collect_lmq w c)))))"
proof (cases "Body r")
  case (Inl e)
  with assms(1,2) show ?thesis
    by (simp add: Collect_lmq_def updateStats_def)
next
  case (Inr b)
  show ?thesis
  proof (cases "Unmarshal b")
    case (Inl e)
    with Inr assms(1,2) show ?thesis
      by (simp add: Collect_lmq_def updateStats_def del: Unmarshal.simps)
  next
    case st: (Inr st)
    with Inr assms(1,2) have f: "fetched w c = Some st"
      by (simp add: fetched_def del: Unmarshal.simps)
    have l: "logged (Collect_lmq w c) = []"
      using range_Queues_ret [of "visit (range_order w) (Queues st)"
          "c\<lparr>expired := now_update w + interval c\<rparr>"]
      by (auto simp add: Collect_lmq_def updateStats_fetched [OF f])
    have e: "emitted (Collect_lmq w c) =
        (if panicked (Collect_lmq w c) then [] else Collect_vecs (state (Collect_lmq w c)))"
      using l by (simp add: emitted_by_log)
    from f l e Inr st show ?thesis
      by (simp add: state_Collect_lmq updateStats_fetched [OF f] range_Queues_fields
          del: Unmarshal.simps)
  qed
qed

theorem non_2xx_status_alone_is_no_failure_witness:
  "expired collector1 \<le> now_check (serving 6000000000 500 (Document snapshot_q1)) \<and>
   httpGet (serving 6000000000 500 (Document snapshot_q1)) (uri collector1) =
     Inr \<lparr>StatusCode = 500, Body = Inr (Document snapshot_q1)\<rparr> \<and>
   delivered \<lparr>StatusCode = 500, Body = Inr (Document snapshot_q1)\<rparr> \<and>
   logged (Collect_lmq (serving 6000000000 500 (Document snapshot_q1)) collector1) = [] \<and>
   expired (state (Collect_lmq (serving 6000000000 500 (Document snapshot_q1)) collector1)) =
     11000000000"
proof -
  let ?w = "serving 6000000000 500 (Document snapshot_q1)"
  let ?r = "\<lparr>StatusCode = 500, Body = Inr (Document snapshot_q1)\<rparr>"
  have 1: "expired collector1 \<le> now_check ?w"
    by (simp add: serving_def collector1_def)
  have 2: "httpGet ?w (uri collector1) = Inr ?r"
    by (simp add: serving_def)
  have 3: "delivered ?r"
    by (simp add: delivered_def no_body_def)
  have 4: "StatusCode ?r < 200 \<or> 300 \<le> StatusCode ?r"
    by simp
  have 5: "now_update ?w + interval collector1 = 11000000000"
    by (simp add: serving_def collector1_def)
  have b: "Body ?r = Inr (Document snapshot_q1)"
    by simp
  from non_2xx_status_alone_is_no_failure [OF 1 2 3 4]
  have "logged (Collect_lmq ?w collector1) = [] \<and>
      expired (state (Collect_lmq ?w collector1)) = now_update ?w + interval collector1"
    unfolding b sum.case Unmarshal_snapshot_q1 by blast
  with 1 2 3 show ?thesis
    unfolding 5 by blast
qed

subsection \<open>Bodies that are JSON but not a snapshot\<close>

lemma decode_members_skip:
  "\<forall>(k, v)\<in>set ms. \<not> matches ''Queues'' k \<Longrightarrow> decode_members lmqStats_field ms s = Inr s"
  by (induction ms) (auto simp add: lmqStats_field_def)

lemma Unmarshal_without_Queues:
  "\<forall>(k, v)\<in>set ms. \<not> matches ''Queues'' k \<Longrightarrow>
   Unmarshal (Document (JObject ms)) = Inr \<lparr>Queues = []\<rparr>"
  by (simp add: decode_members_skip zero_lmqStats_def)

lemma Unmarshal_Queues_number:
  "Unmarshal (Document (JObject [(''Queues'', JNumber (IntLit 5))])) = Inl UnmarshalTypeError"
  by (simp add: lmqStats_field_def matches_refl)

text \<open>
  Claim C10, as stated, fails: not every body that is valid JSON parses. The document
  \<^verbatim>\<open>{"Queues": 5}\<close> is valid JSON, and \<^verbatim>\<open>json.Unmarshal\<close> returns an
  \<^verbatim>\<open>UnmarshalTypeError\<close> for it (a number does not fit the map); the scrape is a failed one,
  and \<^verbatim>\<open>expired\<close> is not extended.
\<close>

theorem valid_json_counterexample:
  "Unmarshal (Document (JObject [(''Queues'', JNumber (IntLit 5))])) =
     Inl UnmarshalTypeError \<and>
   Collect_lmq
     (serving 6000000000 200 (Document (JObject [(''Queues'', JNumber (IntLit 5))])))
     collector1 =
   \<lparr>state = collector1, requests = [''http://localhost:9980/stats''],
    logged = [Failed_to_update_metrics UnmarshalTypeError], emitted = [], panicked = False\<rparr>"
  by (simp add: Collect_lmq_def updateStats_def serving_def collector1_def
      Unmarshal_Queues_number del: Unmarshal.simps)

text \<open>
  Claim C10, amended. A body that is a JSON object with no key that selects the field
  \<^verbatim>\<open>Queues\<close> (the empty object, or an unrelated one) parses, and the scrape is a
  successful refresh: \<^verbatim>\<open>expired\<close> becomes now + interval, no value of any vector changes,
  and the values held for all queues known so far are emitted. Unlike a body that is not
  JSON, such a body extends the cache.
\<close>

theorem object_without_Queues_extends_cache:
  assumes "expired c \<le> now_check w" and "httpGet w (uri c) = Inr r"
    and "Body r = Inr (Document (JObject ms))"
    and "\<forall>(k, v)\<in>set ms. \<not> matches ''Queues'' k"
  shows "Collect_lmq w c =
     \<lparr>state = c\<lparr>expired := now_update w + interval c\<rparr>, requests = [uri c], logged = [],
      emitted = Collect_vecs c, panicked = False\<rparr>"
  using assms Unmarshal_without_Queues [OF assms(4)]
  by (simp add: Collect_lmq_def updateStats_def del: Unmarshal.simps)

lemma unrelated_key: "\<not> matches ''Queues'' ''status''"
  by code_simp

theorem object_without_Queues_extends_cache_witness:
  "expired collector1 \<le>
     now_check (serving 6000000000 200 (Document (JObject [(''status'', JString ''ok'')]))) \<and>
   \<not> matches ''Queues'' ''status'' \<and>
   Collect_lmq (serving 6000000000 200 (Document (JObject [(''status'', JString ''ok'')])))
     collector1 =
   \<lparr>state = collector1\<lparr>expired := 11000000000\<rparr>,
    requests = [''http://localhost:9980/stats''], logged = [],
    emitted = Collect_vecs collector1, panicked = False\<rparr>"
proof -
  let ?ms = "[(''status'', JString ''ok'')]"
  let ?w = "serving 6000000000 200 (Document (JObject ?ms))"
  have 1: "expired collector1 \<le> now_check ?w"
    by (simp add: serving_def collector1_def)
  have 2: "httpGet ?w (uri collector1) =
      Inr \<lparr>StatusCode = 200, Body = Inr (Document (JObject ?ms))\<rparr>"
    by (simp add: serving_def)
  have 3: "Body \<lparr>StatusCode = 200, Body = Inr (Document (JObject ?ms))\<rparr> =
      Inr (Document (JObject ?ms))"
    by simp
  have 4: "\<forall>(k, v)\<in>set ?ms. \<not> matches ''Queues'' k"
    by (simp add: unrelated_key)
  have 5: "now_update ?w + interval collector1 = 11000000000"
    by (simp add: serving_def collector1_def)
  have 6: "uri collector1 = ''http://localhost:9980/stats''"
    by (simp add: collector1_def)
  from object_without_Queues_extends_cache [OF 1 2 3 4] 1 unrelated_key show ?thesis
    unfolding 5 6 by blast
qed

end
